theory Spec2Isabelle
  imports Complex_Main
begin

section \<open>JavaScript values\<close>

text \<open>
  A JavaScript string is a sequence of UTF-16 code units; a code unit is modelled as a
  natural number and a string as the list of its code units. \<open>js\<close> writes an ASCII
  literal of the source as such a list.
\<close>

type_synonym jschar = nat
type_synonym jsstring = "jschar list"

definition js :: "string \<Rightarrow> jsstring" where
  "js s = map of_char s"

text \<open>
  A JavaScript number is a double. Only comparison, \<open>Math.floor\<close>, \<open>Math.ceil\<close>,
  \<open>Math.min\<close>, \<open>Math.max\<close> and exact integer arithmetic are applied to numbers in the
  code modelled here, and these are exact on doubles, so a finite number is modelled
  by its rational value.
\<close>

datatype jsnum = Fin rat | PosInf | NegInf | NaN

text \<open>The value of \<open>await req.json()\<close> and of its parts; a missing property
  (\<open>undefined\<close>) is \<open>None\<close> at the place where the property is read.\<close>

datatype json =
    JNull
  | JBool bool
  | JNum jsnum
  | JStr jsstring
  | JArr "json list"
  | JObj "(jsstring \<times> json) list"

section \<open>Output-token budget (route.ts)\<close>

definition BASE :: int where
  "BASE = 128"

definition MIN_OUTPUT_TOKENS :: int where
  "MIN_OUTPUT_TOKENS = BASE"

definition MAX_OUTPUT_TOKENS :: int where
  "MAX_OUTPUT_TOKENS = BASE * 2 ^ (5 - 1)"

definition DEFAULT_OUTPUT_TOKENS :: int where
  "DEFAULT_OUTPUT_TOKENS = BASE * 2 ^ (3 - 1)"

text \<open>\<open>Math.max(1, Math.min(5, Math.floor(Number.isFinite(level) ? level : 3)))\<close>,
  then \<open>BASE * 2 ** (n - 1)\<close>.\<close>

definition tokensForLevel :: "jsnum \<Rightarrow> int" where
  "tokensForLevel level =
     (let n = max 1 (min 5 \<lfloor>case level of Fin r \<Rightarrow> r | _ \<Rightarrow> 3\<rfloor>)
      in BASE * 2 ^ nat (n - 1))"

text \<open>\<open>typeof x === 'number' && Number.isFinite(x)\<close> on a property of the body.\<close>

fun finiteNumber :: "json option \<Rightarrow> rat option" where
  "finiteNumber (Some (JNum (Fin r))) = Some r"
| "finiteNumber _ = None"

text \<open>The value of \<open>resolvedMaxTokens\<close> in \<open>POST\<close>, from the body's
  \<open>responseLevel\<close> and \<open>maxTokens\<close>.\<close>

definition resolvedMaxTokens :: "json option \<Rightarrow> json option \<Rightarrow> int" where
  "resolvedMaxTokens responseLevel maxTokens =
     (case finiteNumber responseLevel of
        Some level \<Rightarrow> tokensForLevel (Fin level)
      | None \<Rightarrow>
          (case finiteNumber maxTokens of
             Some m \<Rightarrow>
               (let coerced = \<lfloor>m\<rfloor>
                in min (max coerced MIN_OUTPUT_TOKENS) MAX_OUTPUT_TOKENS)
           | None \<Rightarrow> DEFAULT_OUTPUT_TOKENS))"

text \<open>The budget as the specification words it: clamp the floored level into
  \<open>[1,5]\<close> and take \<open>128 * 2^(level-1)\<close>; else clamp the floored raw count into
  \<open>[128,2048]\<close>; else 512.\<close>

definition clamp :: "int \<Rightarrow> int \<Rightarrow> int \<Rightarrow> int" where
  "clamp lo hi x = (if x < lo then lo else if hi < x then hi else x)"

definition spec_token_budget :: "json option \<Rightarrow> json option \<Rightarrow> int" where
  "spec_token_budget responseLevel maxTokens =
     (case finiteNumber responseLevel of
        Some r \<Rightarrow> 128 * 2 ^ nat (clamp 1 5 \<lfloor>r\<rfloor> - 1)
      | None \<Rightarrow>
          (case finiteNumber maxTokens of
             Some m \<Rightarrow> clamp 128 2048 \<lfloor>m\<rfloor>
           | None \<Rightarrow> 512))"

section \<open>Rate limiter (route.ts)\<close>

record RateEntry =
  count :: int
  resetAt :: int

type_synonym rateState = "jsstring \<Rightarrow> RateEntry option"

datatype RateLimitResult =
    Allowed (limit: int) (remaining: int) (resetSeconds: int)
  | Rejected (limit: int) (retryAfterSeconds: int) (resetSeconds: int)

text \<open>The environment of the process: the two rate-limit variables after
  \<open>Number.parseInt(process.env.X ?? default, 10)\<close>, where \<open>None\<close> is \<open>NaN\<close>, and the
  API key.\<close>

record config =
  RATE_LIMIT_WINDOW_MS :: "int option"
  RATE_LIMIT_MAX_REQUESTS :: "int option"
  XAI_API_KEY :: "jsstring option"

text \<open>\<open>Math.ceil(ms / 1000)\<close> on an integer number of milliseconds.\<close>

definition ceilSeconds :: "int \<Rightarrow> int" where
  "ceilSeconds ms = \<lceil>rat_of_int ms / 1000\<rceil>"

definition cleanupRateState :: "int \<Rightarrow> rateState \<Rightarrow> rateState" where
  "cleanupRateState now rateState =
     (\<lambda>id. case rateState id of
              None \<Rightarrow> None
            | Some entry \<Rightarrow> if resetAt entry \<le> now then None else Some entry)"

definition limitOf :: "config \<Rightarrow> int" where
  "limitOf cfg =
     (case RATE_LIMIT_MAX_REQUESTS cfg of Some n \<Rightarrow> if n > 0 then n else 10 | None \<Rightarrow> 10)"

definition windowMsOf :: "config \<Rightarrow> int" where
  "windowMsOf cfg =
     (case RATE_LIMIT_WINDOW_MS cfg of Some n \<Rightarrow> if n > 0 then n else 60000 | None \<Rightarrow> 60000)"

text \<open>\<open>applyRateLimit\<close>: \<open>now\<close> is the value of \<open>Date.now()\<close>, the module-level map is
  passed in and returned.\<close>

definition applyRateLimit ::
  "config \<Rightarrow> int \<Rightarrow> rateState \<Rightarrow> jsstring \<Rightarrow> RateLimitResult \<times> rateState" where
  "applyRateLimit cfg now rateState clientId =
     (let st = cleanupRateState now rateState;
          limit = limitOf cfg;
          windowMs = windowMsOf cfg;
          existing = st clientId;
          resetSeconds =
            (case existing of
               Some e \<Rightarrow> max 1 (ceilSeconds (resetAt e - now))
             | None \<Rightarrow> max 1 (ceilSeconds windowMs));
          fresh =
            (let resetAt' = now + windowMs
             in (Allowed limit (max 0 (limit - 1)) (max 1 (ceilSeconds (resetAt' - now))),
                 st(clientId \<mapsto> \<lparr>count = 1, resetAt = resetAt'\<rparr>)))
      in case existing of
           None \<Rightarrow> fresh
         | Some e \<Rightarrow>
             if resetAt e \<le> now then fresh
             else if count e \<ge> limit then
               (let retryAfterSeconds = max 1 (ceilSeconds (resetAt e - now))
                in (Rejected limit retryAfterSeconds retryAfterSeconds, st))
             else
               (let e' = e\<lparr>count := count e + 1\<rparr>
                in (Allowed limit (max 0 (limit - count e')) resetSeconds,
                    st(clientId \<mapsto> e'))))"

text \<open>Successive calls of \<open>applyRateLimit\<close> for one client id, at the given clock
  readings, threading the shared map.\<close>

fun successiveCalls ::
  "config \<Rightarrow> rateState \<Rightarrow> jsstring \<Rightarrow> int list \<Rightarrow> RateLimitResult list \<times> rateState" where
  "successiveCalls cfg st c [] = ([], st)"
| "successiveCalls cfg st c (now # ts) =
     (case applyRateLimit cfg now st c of
        (r, st') \<Rightarrow>
          (case successiveCalls cfg st' c ts of (rs, st'') \<Rightarrow> (r # rs, st'')))"

text \<open>What a result says to the caller: admitted with a remaining quota, or rejected
  with a retry delay.\<close>

fun admittedRemaining :: "RateLimitResult \<Rightarrow> int option" where
  "admittedRemaining (Allowed l r s) = Some r"
| "admittedRemaining (Rejected l r s) = None"

definition defaultConfig :: config where
  "defaultConfig =
     \<lparr>RATE_LIMIT_WINDOW_MS = Some 60000, RATE_LIMIT_MAX_REQUESTS = Some 10,
      XAI_API_KEY = Some (js ''test-key'')\<rparr>"

section \<open>Built-in functions of the JavaScript platform\<close>

text \<open>
  The code calls built-ins whose tables are not part of the repository: Unicode case
  mapping (\<open>String.prototype.toLowerCase\<close>), Unicode normalisation
  (\<open>String.prototype.normalize('NFKD')\<close>), the conversion of a string to a number
  (\<open>ToNumber\<close>, applied by the \<open>-\<close> operator) and the URL parser (\<open>new URL(url)\<close>, of
  which the code reads \<open>protocol\<close>; \<open>None\<close> when the constructor throws). They are
  parameters of the model: every general theorem below holds for every platform.
\<close>

record platform =
  toLowerCase :: "jsstring \<Rightarrow> jsstring"
  normalizeNFKD :: "jsstring \<Rightarrow> jsstring"
  toNumber :: "jsstring \<Rightarrow> jsnum"
  urlProtocol :: "jsstring \<Rightarrow> jsstring option"

text \<open>A thrown value. \<open>Error m\<close> is \<open>new Error(m)\<close> (or an error of the platform whose
  message the environment supplies); \<open>TypeError\<close> is the error the engine raises when
  a method is called on a value that does not have it, whose English message text is
  the engine's own.\<close>

datatype js_error = Error jsstring | TypeError

section \<open>Regular expressions\<close>

text \<open>
  The patterns of the program use literals, character classes, grouping, alternation,
  \<open>?\<close>, \<open>*\<close>, \<open>+\<close> and the word-boundary assertion \<open>\b\<close>; none has a backreference or
  a lookaround, and the program only asks \<open>test\<close>, whether some match exists. A
  position in the subject is the code unit before it (if any) and the rest of the
  subject. \<open>ends r ps\<close> lists the positions where a match of \<open>r\<close> that starts at one of
  \<open>ps\<close> can end; whether a match exists does not depend on the order in which a
  backtracking matcher tries the alternatives.
\<close>

datatype regex =
    Lit jsstring
  | Cls "(jschar \<times> jschar) list"
  | NCls "(jschar \<times> jschar) list"
  | Seq regex regex
  | Alt regex regex
  | Opt regex
  | Star regex
  | Plus regex
  | WordB

type_synonym pos = "jschar option \<times> jsstring"

fun inRanges :: "(jschar \<times> jschar) list \<Rightarrow> jschar \<Rightarrow> bool" where
  "inRanges [] c = False"
| "inRanges ((lo, hi) # rs) c = (if lo \<le> c \<and> c \<le> hi then True else inRanges rs c)"

fun litEnd :: "jsstring \<Rightarrow> pos \<Rightarrow> pos option" where
  "litEnd [] p = Some p"
| "litEnd (c # cs) (prev, []) = None"
| "litEnd (c # cs) (prev, d # ds) = (if c = d then litEnd cs (Some d, ds) else None)"

fun litEnds :: "jsstring \<Rightarrow> pos list \<Rightarrow> pos list" where
  "litEnds w [] = []"
| "litEnds w (p # ps) =
     (case litEnd w p of None \<Rightarrow> litEnds w ps | Some q \<Rightarrow> q # litEnds w ps)"

fun clsEnds :: "bool \<Rightarrow> (jschar \<times> jschar) list \<Rightarrow> pos list \<Rightarrow> pos list" where
  "clsEnds neg rs [] = []"
| "clsEnds neg rs ((prev, []) # ps) = clsEnds neg rs ps"
| "clsEnds neg rs ((prev, c # cs) # ps) =
     (if inRanges rs c \<noteq> neg then (Some c, cs) # clsEnds neg rs ps else clsEnds neg rs ps)"

text \<open>\<open>\w\<close> is \<open>[A-Za-z0-9_]\<close>; \<open>\b\<close> holds where exactly one of the two neighbours is a
  word character.\<close>

definition wordChars :: "(jschar \<times> jschar) list" where
  "wordChars = [(48, 57), (65, 90), (95, 95), (97, 122)]"

fun isWordBefore :: "jschar option \<Rightarrow> bool" where
  "isWordBefore None = False"
| "isWordBefore (Some c) = inRanges wordChars c"

fun isWordAfter :: "jsstring \<Rightarrow> bool" where
  "isWordAfter [] = False"
| "isWordAfter (c # cs) = inRanges wordChars c"

fun boundaries :: "pos list \<Rightarrow> pos list" where
  "boundaries [] = []"
| "boundaries ((prev, s) # ps) =
     (if isWordBefore prev \<noteq> isWordAfter s then (prev, s) # boundaries ps
      else boundaries ps)"

text \<open>Repetition: zero iterations, or one more iteration from every position reached
  so far. An iteration that advances consumes a code unit, so the length of the
  longest rest bounds the number of iterations that can reach a new position.\<close>

fun iterate :: "nat \<Rightarrow> (pos list \<Rightarrow> pos list) \<Rightarrow> pos list \<Rightarrow> pos list" where
  "iterate 0 f ps = ps"
| "iterate (Suc n) f ps = (if ps = [] then [] else ps @ iterate n f (f ps))"

fun fuel :: "pos list \<Rightarrow> nat" where
  "fuel [] = 0"
| "fuel ((prev, s) # ps) = max (length s) (fuel ps)"

fun ends :: "regex \<Rightarrow> pos list \<Rightarrow> pos list" where
  "ends (Lit w) ps = litEnds w ps"
| "ends (Cls rs) ps = clsEnds False rs ps"
| "ends (NCls rs) ps = clsEnds True rs ps"
| "ends (Seq a b) ps = ends b (ends a ps)"
| "ends (Alt a b) ps = ends a ps @ ends b ps"
| "ends (Opt a) ps = ends a ps @ ps"
| "ends (Star a) ps = iterate (fuel ps) (ends a) ps"
| "ends (Plus a) ps = (let qs = ends a ps in iterate (fuel qs) (ends a) qs)"
| "ends WordB ps = boundaries ps"

fun positions :: "jschar option \<Rightarrow> jsstring \<Rightarrow> pos list" where
  "positions prev [] = [(prev, [])]"
| "positions prev (c # cs) = (prev, c # cs) # positions (Some c) cs"

text \<open>\<open>r.test(s)\<close> for a pattern without the \<open>g\<close> and \<open>y\<close> flags: a match may start
  anywhere.\<close>

definition regexTest :: "regex \<Rightarrow> jsstring \<Rightarrow> bool" where
  "regexTest r s = (ends r (positions None s) \<noteq> [])"

fun seqs :: "regex list \<Rightarrow> regex" where
  "seqs [] = Lit []"
| "seqs [r] = r"
| "seqs (r # rs) = Seq r (seqs rs)"

fun alts :: "regex list \<Rightarrow> regex" where
  "alts [] = Cls []"
| "alts [r] = r"
| "alts (r # rs) = Alt r (alts rs)"

definition str :: "string \<Rightarrow> regex" where
  "str s = Lit (js s)"

text \<open>\<open>\s\<close>: the white space and line terminator code units of ECMAScript.\<close>

definition whiteSpace :: "(jschar \<times> jschar) list" where
  "whiteSpace =
     [(9, 13), (32, 32), (160, 160), (5760, 5760), (8192, 8202), (8232, 8233),
      (8239, 8239), (8287, 8287), (12288, 12288), (65279, 65279)]"

definition space :: regex where
  "space = Cls whiteSpace"

definition nonSpace :: regex where
  "nonSpace = NCls whiteSpace"

definition digit :: regex where
  "digit = Cls [(48, 57)]"

definition word :: regex where
  "word = Cls wordChars"

section \<open>Content guard (lib/nsfwGuard.ts)\<close>

text \<open>\<open>/\b(menor(?:es)?|nin[oa]s?|adolescente(?:s)?|teen(?:ager)?s?|infante(?:s)?|\<close>
  \<open>pre(?:adolecente|pubescente)(?:s)?|loli|shota)\b/\<close>\<close>

definition UNDERAGE_LEX :: regex where
  "UNDERAGE_LEX =
     seqs [WordB,
           alts [seqs [str ''menor'', Opt (str ''es'')],
                 seqs [str ''nin'', Cls [(111, 111), (97, 97)], Opt (str ''s'')],
                 seqs [str ''adolescente'', Opt (str ''s'')],
                 seqs [str ''teen'', Opt (str ''ager''), Opt (str ''s'')],
                 seqs [str ''infante'', Opt (str ''s'')],
                 seqs [str ''pre'', alts [str ''adolecente'', str ''pubescente''],
                       Opt (str ''s'')],
                 str ''loli'',
                 str ''shota''],
           WordB]"

text \<open>\<open>/\b(1[0-7]|[1-9])\s*(a[U+00F1]os|anos|years?|yrs?|y\/o|yo)(\s*de\s*edad)?\b/\<close>,
  where the first unit is spelt with the code unit U+00F1 (n with tilde).\<close>

definition UNDERAGE_AGE :: regex where
  "UNDERAGE_AGE =
     seqs [WordB,
           alts [Seq (str ''1'') (Cls [(48, 55)]), Cls [(49, 57)]],
           Star space,
           alts [Lit [97, 241, 111, 115], str ''anos'', Seq (str ''year'') (Opt (str ''s'')),
                 Seq (str ''yr'') (Opt (str ''s'')), str ''y/o'', str ''yo''],
           Opt (seqs [Star space, str ''de'', Star space, str ''edad'']),
           WordB]"

text \<open>\<open>/\b(hace\s*\d+\s*anos|anos\s*(de\s*experiencia|despues|atras|antiguedad)|\<close>
  \<open>antiguedad\s*\d+\s*anos)\b/\<close>\<close>

definition UNDERAGE_EXCLUSIONS :: regex where
  "UNDERAGE_EXCLUSIONS =
     seqs [WordB,
           alts [seqs [str ''hace'', Star space, Plus digit, Star space, str ''anos''],
                 seqs [str ''anos'', Star space,
                       alts [seqs [str ''de'', Star space, str ''experiencia''],
                             str ''despues'', str ''atras'', str ''antiguedad'']],
                 seqs [str ''antiguedad'', Star space, Plus digit, Star space, str ''anos'']],
           WordB]"

text \<open>\<open>/\b(incesto|zoofilia|bestialidad|violencia\s+sexual|violacion|rape|trata|\<close>
  \<open>explotacion|sextortion)\b/\<close>\<close>

definition HARD_RULES :: regex where
  "HARD_RULES =
     seqs [WordB,
           alts [str ''incesto'', str ''zoofilia'', str ''bestialidad'',
                 seqs [str ''violencia'', Plus space, str ''sexual''],
                 str ''violacion'', str ''rape'', str ''trata'', str ''explotacion'',
                 str ''sextortion''],
           WordB]"

text \<open>\<open>/\b(dox(?:eo|ear|xing)|filtrar\s+datos|exponer\s+datos)\b/\<close>\<close>

definition DOXXING :: regex where
  "DOXXING =
     seqs [WordB,
           alts [Seq (str ''dox'') (alts [str ''eo'', str ''ear'', str ''xing'']),
                 seqs [str ''filtrar'', Plus space, str ''datos''],
                 seqs [str ''exponer'', Plus space, str ''datos'']],
           WordB]"

text \<open>\<open>/(@\w+|https?:\/\/(www\.)?(instagram|facebook|tiktok|x|twitter)\.com\/\S+)/\<close>\<close>

definition REAL_LIKENESS :: regex where
  "REAL_LIKENESS =
     alts [Seq (str ''@'') (Plus word),
           seqs [str ''http'', Opt (str ''s''), str ''://'', Opt (str ''www.''),
                 alts [str ''instagram'', str ''facebook'', str ''tiktok'', str ''x'',
                       str ''twitter''],
                 str ''.com/'', Plus nonSpace]]"

text \<open>\<open>/\b(sex|sexo|porn|porno|desnudo|desnudos|erot|fetich|xxx)\b/\<close>\<close>

definition NSFW_TERMS :: regex where
  "NSFW_TERMS =
     seqs [WordB,
           alts [str ''sex'', str ''sexo'', str ''porn'', str ''porno'', str ''desnudo'',
                 str ''desnudos'', str ''erot'', str ''fetich'', str ''xxx''],
           WordB]"

text \<open>\<open>isLetter = (char) => /[a-z]/.test(char)\<close>\<close>

definition isLetter :: "jsstring \<Rightarrow> bool" where
  "isLetter char = regexTest (Cls [(97, 122)]) char"

text \<open>\<open>input[n] ?? ''\<close> for a number \<open>n\<close>: the code unit at index \<open>n\<close> when \<open>n\<close> is an
  integer index of the string, else the empty string.\<close>

definition charAtNumber :: "jsstring \<Rightarrow> jsnum \<Rightarrow> jsstring" where
  "charAtNumber s n =
     (case n of
        Fin r \<Rightarrow>
          if of_int \<lfloor>r\<rfloor> = r \<and> 0 \<le> r \<and> \<lfloor>r\<rfloor> < int (length s) then [s ! nat \<lfloor>r\<rfloor>] else []
      | _ \<Rightarrow> [])"

text \<open>A property key that is the canonical decimal spelling of an array index.\<close>

definition decimalValue :: "jsstring \<Rightarrow> nat" where
  "decimalValue s = foldl (\<lambda>acc c. 10 * acc + (c - 48)) 0 s"

definition canonicalIndex :: "jsstring \<Rightarrow> nat option" where
  "canonicalIndex key =
     (if key \<noteq> [] \<and> list_all (\<lambda>c. 48 \<le> c \<and> c \<le> 57) key \<and> (hd key \<noteq> 48 \<or> length key = 1)
      then Some (decimalValue key) else None)"

text \<open>\<open>input[key] ?? ''\<close> for a string \<open>key\<close> that names no property of
  \<open>String.prototype\<close> (here the key always ends in the digit 1).\<close>

definition charAtKey :: "jsstring \<Rightarrow> jsstring \<Rightarrow> jsstring" where
  "charAtKey s key =
     (case canonicalIndex key of
        Some i \<Rightarrow> if i < length s then [s ! i] else []
      | None \<Rightarrow> [])"

text \<open>\<open>x - 1\<close> on a number. The difference of a double and 1 is an integer index of a
  string exactly when the exact difference is.\<close>

fun minusOne :: "jsnum \<Rightarrow> jsnum" where
  "minusOne (Fin r) = Fin (r - 1)"
| "minusOne n = n"

text \<open>
  The replacer of \<open>applyLeetspeak\<close>, with its parameters as the source names them:
  \<open>(match, _group, offset)\<close>. It reads \<open>input[offset - 1]\<close> and \<open>input[offset + 1]\<close>.
\<close>

definition leetReplacer :: "platform \<Rightarrow> jsstring \<Rightarrow> jsstring \<Rightarrow> nat \<Rightarrow> jsstring \<Rightarrow> jsstring" where
  "leetReplacer P input match group' offset =
     (let prev = charAtNumber input (minusOne (toNumber P offset));
          next = charAtKey input (offset @ js ''1'');
          nearLetters = (isLetter prev \<or> isLetter next)
      in if match = js ''1'' \<or> match = js ''!'' then (if nearLetters then js ''i'' else match)
         else if match = js ''3'' then (if nearLetters then js ''e'' else match)
         else if match = js ''0'' then (if nearLetters then js ''o'' else match)
         else if match = js ''$'' then (if nearLetters then js ''s'' else match)
         else if match = js ''@'' then js ''a''
         else match)"

text \<open>
  \<open>input.replace(/[1!30\$@]/g, replacer)\<close>. The pattern has no capture group, so
  \<open>String.prototype.replace\<close> calls the replacer with the matched code unit, the
  position of the match and the whole subject string, in this order: the parameter
  \<open>_group\<close> receives the position and the parameter \<open>offset\<close> receives the subject.
\<close>

fun replaceLeet :: "platform \<Rightarrow> jsstring \<Rightarrow> nat \<Rightarrow> jsstring \<Rightarrow> jsstring" where
  "replaceLeet P input i [] = []"
| "replaceLeet P input i (c # cs) =
     (if c \<in> set (js ''1!30$@'') then leetReplacer P input [c] i input else [c])
       @ replaceLeet P input (Suc i) cs"

definition applyLeetspeak :: "platform \<Rightarrow> jsstring \<Rightarrow> jsstring" where
  "applyLeetspeak P input = replaceLeet P input 0 input"

text \<open>\<open>.replace(/[\u0300-\u036f]/g, '')\<close>: the combining diacritical marks are removed.\<close>

definition stripMarks :: "jsstring \<Rightarrow> jsstring" where
  "stripMarks s = filter (\<lambda>c. \<not> (768 \<le> c \<and> c \<le> 879)) s"

definition normalizeText :: "platform \<Rightarrow> jsstring \<Rightarrow> jsstring" where
  "normalizeText P text = applyLeetspeak P (stripMarks (normalizeNFKD P (toLowerCase P text)))"

definition guardPrefix :: jsstring where
  "guardPrefix = js ''Lo siento, eso viola nuestras reglas de contenido seguro ''"

definition reasonUnderage :: jsstring where
  "reasonUnderage = guardPrefix @ js ''(referencia a menores).''"

definition reasonUnderageAge :: jsstring where
  "reasonUnderageAge = guardPrefix @ js ''(referencia etaria a menores).''"

definition reasonHard :: jsstring where
  "reasonHard = guardPrefix @ js ''(contenido hard prohibido).''"

definition reasonDoxxing :: jsstring where
  "reasonDoxxing = guardPrefix @ js ''(doxxing).''"

definition reasonLikeness :: jsstring where
  "reasonLikeness = guardPrefix @ js ''(likeness real en contexto NSFW).''"

text \<open>\<open>guardOrThrow\<close>: \<open>Inr ()\<close> when it returns, \<open>Inl e\<close> when it throws \<open>e\<close>.\<close>

definition guardOrThrow :: "platform \<Rightarrow> jsstring \<Rightarrow> js_error + unit" where
  "guardOrThrow P text =
     (let normalized = normalizeText P text
      in if regexTest UNDERAGE_LEX normalized then Inl (Error reasonUnderage)
         else if regexTest UNDERAGE_AGE normalized
                 \<and> \<not> regexTest UNDERAGE_EXCLUSIONS normalized
           then Inl (Error reasonUnderageAge)
         else if regexTest HARD_RULES normalized then Inl (Error reasonHard)
         else if regexTest DOXXING normalized then Inl (Error reasonDoxxing)
         else
           (let likenessInOriginalText = regexTest REAL_LIKENESS text
            in if likenessInOriginalText \<and> regexTest NSFW_TERMS normalized
               then Inl (Error reasonLikeness)
               else Inr ()))"

text \<open>The five policy rules as the specification lists them, in its order: whether
  the rule matches the text, and the reason it reports.\<close>

definition policyRules :: "platform \<Rightarrow> jsstring \<Rightarrow> (bool \<times> jsstring) list" where
  "policyRules P text =
     (let normalized = normalizeText P text
      in [(regexTest UNDERAGE_LEX normalized, reasonUnderage),
          (regexTest UNDERAGE_AGE normalized \<and> \<not> regexTest UNDERAGE_EXCLUSIONS normalized,
           reasonUnderageAge),
          (regexTest HARD_RULES normalized, reasonHard),
          (regexTest DOXXING normalized, reasonDoxxing),
          (regexTest REAL_LIKENESS text \<and> regexTest NSFW_TERMS normalized, reasonLikeness)])"

section \<open>Message coercion (route.ts)\<close>

datatype Role = System | User | Assistant

datatype MessagePart = TextPart jsstring | ImagePart (url: jsstring) (detail: jsstring)

datatype MessageContent = Text jsstring | Parts "MessagePart list"

record ChatMessage =
  role :: Role
  content :: MessageContent

definition ALLOWED_MODELS :: "jsstring list" where
  "ALLOWED_MODELS = [js ''grok-4-fast-reasoning'', js ''grok-4-fast-non-reasoning'']"

definition MAX_MESSAGES :: nat where
  "MAX_MESSAGES = 50"

definition MAX_TEXT_CHARS :: nat where
  "MAX_TEXT_CHARS = 8000"

definition MAX_PROMPT_CHARS :: nat where
  "MAX_PROMPT_CHARS = 4000"

definition MAX_DATA_URL_BYTES :: int where
  "MAX_DATA_URL_BYTES = 20 * 1024 * 1024"

definition DETAIL_LEVELS :: "jsstring list" where
  "DETAIL_LEVELS = [js ''auto'', js ''low'', js ''high'']"

text \<open>Reading a property of a parsed JSON value: only an object has the properties
  the program reads (none of them is a property of arrays or strings).\<close>

fun getProp :: "json \<Rightarrow> jsstring \<Rightarrow> json option" where
  "getProp (JObj kvs) k = map_of kvs k"
| "getProp v k = None"

text \<open>\<open>!(!x || typeof x !== 'object')\<close>: arrays are objects, \<open>null\<close> is falsy.\<close>

fun isObject :: "json \<Rightarrow> bool" where
  "isObject (JObj kvs) = True"
| "isObject (JArr vs) = True"
| "isObject v = False"

text \<open>\<open>!x\<close> on a value that is present.\<close>

fun falsy :: "json \<Rightarrow> bool" where
  "falsy JNull = True"
| "falsy (JBool b) = (\<not> b)"
| "falsy (JNum n) = (n = Fin 0 \<or> n = NaN)"
| "falsy (JStr s) = (s = [])"
| "falsy v = False"

definition isWhite :: "jschar \<Rightarrow> bool" where
  "isWhite c = inRanges whiteSpace c"

text \<open>\<open>String.prototype.trim\<close>\<close>

definition trim :: "jsstring \<Rightarrow> jsstring" where
  "trim s = rev (dropWhile isWhite (rev (dropWhile isWhite s)))"

text \<open>\<open>value.replace(/[\x00-\x1F\x7F-\x9F]/g, '').trim()\<close>\<close>

definition sanitizePrompt :: "jsstring \<Rightarrow> jsstring" where
  "sanitizePrompt v = trim (filter (\<lambda>c. \<not> (c \<le> 31 \<or> (127 \<le> c \<and> c \<le> 159))) v)"

text \<open>\<open>value.replace(/[\x00-\x08\x0B\x0C\x0E-\x1F\x7F-\x9F]/g, '')\<close>\<close>

definition strippedControl :: "jschar \<Rightarrow> bool" where
  "strippedControl c = (c \<le> 8 \<or> c = 11 \<or> c = 12 \<or> (14 \<le> c \<and> c \<le> 31) \<or> (127 \<le> c \<and> c \<le> 159))"

definition sanitizeTextSegment :: "jsstring \<Rightarrow> jsstring" where
  "sanitizeTextSegment v = filter (\<lambda>c. \<not> strippedControl c) v"

text \<open>\<open>normalizeDetail\<close>, applied to the \<open>detail\<close> property as it arrives: the cast to
  \<open>string | undefined\<close> is erased at run time, so a truthy value that is not a string
  makes \<open>detail.toLowerCase()\<close> raise a \<open>TypeError\<close>.\<close>

definition normalizeDetail :: "platform \<Rightarrow> json option \<Rightarrow> js_error + jsstring" where
  "normalizeDetail P detail' =
     (case detail' of
        None \<Rightarrow> Inr (js ''auto'')
      | Some d \<Rightarrow>
          if falsy d then Inr (js ''auto'')
          else
            (case d of
               JStr s \<Rightarrow>
                 (let lowered = toLowerCase P s
                  in if lowered \<in> set DETAIL_LEVELS then Inr lowered else Inr (js ''auto''))
             | _ \<Rightarrow> Inl TypeError))"

text \<open>\<open>isHttpUrl\<close>\<close>

definition isHttpUrl :: "platform \<Rightarrow> jsstring \<Rightarrow> bool" where
  "isHttpUrl P u =
     (case urlProtocol P u of
        None \<Rightarrow> False
      | Some protocol \<Rightarrow> protocol = js ''http:'' \<or> protocol = js ''https:'')"

text \<open>
  \<open>DATA_URL_PATTERN = /^data:image\/(png|jpe?g);base64,([a-z0-9+/=\r\n]+)$/i\<close> and
  its two groups. With the \<open>i\<close> flag an ASCII letter of the pattern matches both of
  its cases and nothing else.
\<close>

definition foldCase :: "jschar \<Rightarrow> jschar" where
  "foldCase c = (if 97 \<le> c \<and> c \<le> 122 then c - 32 else c)"

fun stripPrefixCI :: "jsstring \<Rightarrow> jsstring \<Rightarrow> jsstring option" where
  "stripPrefixCI [] s = Some s"
| "stripPrefixCI (c # cs) [] = None"
| "stripPrefixCI (c # cs) (d # ds) =
     (if foldCase c = foldCase d then stripPrefixCI cs ds else None)"

definition base64Char :: "jschar \<Rightarrow> bool" where
  "base64Char c =
     inRanges [(97, 122), (65, 90), (48, 57), (43, 43), (47, 47), (61, 61), (13, 13), (10, 10)] c"

fun afterMime :: "jsstring list \<Rightarrow> jsstring \<Rightarrow> (jsstring \<times> jsstring) option" where
  "afterMime [] s = None"
| "afterMime (m # ms) s =
     (case stripPrefixCI (m @ js '';base64,'') s of
        Some raw \<Rightarrow>
          if raw \<noteq> [] \<and> list_all base64Char raw then Some (take (length m) s, raw)
          else afterMime ms s
      | None \<Rightarrow> afterMime ms s)"

definition DATA_URL_PATTERN_exec :: "jsstring \<Rightarrow> (jsstring \<times> jsstring) option" where
  "DATA_URL_PATTERN_exec u =
     (case stripPrefixCI (js ''data:image/'') u of
        None \<Rightarrow> None
      | Some s \<Rightarrow> afterMime [js ''png'', js ''jpeg'', js ''jpg''] s)"

record dataUrlPayload =
  mime :: jsstring
  base64 :: jsstring
  bytes :: int

text \<open>\<open>getDataUrlPayload\<close>: \<open>endsWith('==')\<close>, \<open>endsWith('=')\<close> and
  \<open>Math.floor(base64.length / 4) * 3 - padding\<close>.\<close>

definition endsWith :: "jsstring \<Rightarrow> jsstring \<Rightarrow> bool" where
  "endsWith s suffix = (length suffix \<le> length s \<and> drop (length s - length suffix) s = suffix)"

definition getDataUrlPayload :: "platform \<Rightarrow> jsstring \<Rightarrow> dataUrlPayload option" where
  "getDataUrlPayload P u =
     (case DATA_URL_PATTERN_exec u of
        None \<Rightarrow> None
      | Some (mime', rawBase64) \<Rightarrow>
          (let base64' = filter (\<lambda>c. \<not> isWhite c) rawBase64;
               padding = (if endsWith base64' (js ''=='') then 2
                          else if endsWith base64' (js ''='') then 1 else 0);
               bytes' = (int (length base64') div 4) * 3 - padding
           in Some \<lparr>mime = toLowerCase P mime', base64 = base64', bytes = bytes'\<rparr>))"

definition invalidMessage :: js_error where
  "invalidMessage = Error (js ''Mensaje inv'' @ [225] @ js ''lido'')"

definition invalidRole :: js_error where
  "invalidRole = Error (js ''Rol de mensaje inv'' @ [225] @ js ''lido.'')"

definition invalidImageUrl :: js_error where
  "invalidImageUrl = Error (js ''URL de imagen inv'' @ [225] @ js ''lida'')"

definition invalidDataUrl :: js_error where
  "invalidDataUrl = Error (js ''Data URL de imagen inv'' @ [225] @ js ''lida'')"

definition imageTooLarge :: js_error where
  "imageTooLarge = Error (js ''La imagen adjunta supera el l'' @ [237] @ js ''mite de 20 MiB'')"

text \<open>\<open>((imagePart as { url?: unknown }).url as string | undefined)?.trim() ?? ''\<close>\<close>

definition imageUrlOf :: "json \<Rightarrow> js_error + jsstring" where
  "imageUrlOf imagePart =
     (case getProp imagePart (js ''url'') of
        None \<Rightarrow> Inr []
      | Some JNull \<Rightarrow> Inr []
      | Some (JStr u) \<Rightarrow> Inr (trim u)
      | Some v \<Rightarrow> Inl TypeError)"

text \<open>The body of the loop over \<open>rawContent\<close> in \<open>coerceMessage\<close>: the part that is
  pushed, or the error that is thrown.\<close>

definition coercePart :: "platform \<Rightarrow> json \<Rightarrow> js_error + MessagePart" where
  "coercePart P part =
     (if \<not> isObject part then Inl invalidMessage
      else
        (let type = getProp part (js ''type'')
         in if type = Some (JStr (js ''text'')) then
              (case getProp part (js ''text'') of
                 Some (JStr t) \<Rightarrow>
                   (let textValue = sanitizeTextSegment t
                    in if textValue = [] \<or> length textValue > MAX_TEXT_CHARS
                       then Inl invalidMessage
                       else Inr (TextPart textValue))
               | _ \<Rightarrow> Inl TypeError)
            else if type = Some (JStr (js ''image_url'')) then
              (case getProp part (js ''image_url'') of
                 None \<Rightarrow> Inl invalidMessage
               | Some imagePart \<Rightarrow>
                   if \<not> isObject imagePart then Inl invalidMessage
                   else
                     (case imageUrlOf imagePart of
                        Inl e \<Rightarrow> Inl e
                      | Inr u \<Rightarrow>
                          if u = [] then Inl invalidImageUrl
                          else
                            (case normalizeDetail P (getProp imagePart (js ''detail'')) of
                               Inl e \<Rightarrow> Inl e
                             | Inr d \<Rightarrow>
                                 if take 5 u = js ''data:'' then
                                   (case getDataUrlPayload P u of
                                      None \<Rightarrow> Inl invalidDataUrl
                                    | Some payload \<Rightarrow>
                                        if bytes payload > MAX_DATA_URL_BYTES
                                        then Inl imageTooLarge
                                        else Inr (ImagePart u d))
                                 else if \<not> isHttpUrl P u then Inl invalidImageUrl
                                 else Inr (ImagePart u d))))
            else Inl invalidMessage))"

fun coerceParts :: "platform \<Rightarrow> json list \<Rightarrow> js_error + MessagePart list" where
  "coerceParts P [] = Inr []"
| "coerceParts P (part # rest) =
     (case coercePart P part of
        Inl e \<Rightarrow> Inl e
      | Inr p \<Rightarrow>
          (case coerceParts P rest of Inl e \<Rightarrow> Inl e | Inr ps \<Rightarrow> Inr (p # ps)))"

definition roleOf :: "json option \<Rightarrow> Role option" where
  "roleOf r =
     (if r = Some (JStr (js ''system'')) then Some System
      else if r = Some (JStr (js ''user'')) then Some User
      else if r = Some (JStr (js ''assistant'')) then Some Assistant
      else None)"

definition coerceMessage :: "platform \<Rightarrow> json \<Rightarrow> js_error + ChatMessage" where
  "coerceMessage P input =
     (if \<not> isObject input then Inl invalidMessage
      else
        (case roleOf (getProp input (js ''role'')) of
           None \<Rightarrow> Inl invalidRole
         | Some role' \<Rightarrow>
             (case getProp input (js ''content'') of
                Some (JStr rawContent) \<Rightarrow>
                  (let sanitized = sanitizeTextSegment rawContent
                   in if sanitized = [] \<or> length sanitized > MAX_TEXT_CHARS
                      then Inl invalidMessage
                      else Inr \<lparr>role = role', content = Text sanitized\<rparr>)
              | Some (JArr rawContent) \<Rightarrow>
                  (case coerceParts P rawContent of
                     Inl e \<Rightarrow> Inl e
                   | Inr parts \<Rightarrow>
                       if length parts = 0 then Inl invalidMessage
                       else Inr \<lparr>role = role', content = Parts parts\<rparr>)
              | _ \<Rightarrow> Inl invalidMessage)))"

fun partTexts :: "MessagePart list \<Rightarrow> jsstring list" where
  "partTexts [] = []"
| "partTexts (TextPart t # ps) = t # partTexts ps"
| "partTexts (ImagePart u d # ps) = partTexts ps"

definition extractTextSegments :: "MessageContent \<Rightarrow> jsstring list" where
  "extractTextSegments c = (case c of Text s \<Rightarrow> [s] | Parts ps \<Rightarrow> partTexts ps)"

section \<open>The proxy endpoint (route.ts)\<close>

text \<open>What \<open>POST\<close> reads of the request: the origin of its URL, four headers or
  connection properties, and the outcome of \<open>await req.json()\<close> (\<open>Inl\<close> the error it
  rejects with when the body is not JSON).\<close>

record request =
  urlOrigin :: jsstring
  originHeader :: "jsstring option"
  contentTypeHeader :: "jsstring option"
  forwardedFor :: "jsstring option"
  ip :: "jsstring option"
  body :: "js_error + json"

record payload =
  model :: jsstring
  temperature :: jsnum
  stream :: bool
  messages :: "ChatMessage list"
  max_output_tokens :: int

text \<open>What \<open>POST\<close> reads of the upstream response: \<open>ok\<close>, \<open>status\<close>, \<open>body\<close>, and the
  \<open>error\<close> property of its JSON when that parses and is a string.\<close>

record upstreamResponse =
  ok :: bool
  upStatus :: nat
  upBody :: "jsstring option"
  upError :: "jsstring option"

datatype fetchOutcome = FetchThrows js_error | FetchResolves upstreamResponse

text \<open>The world around one request: the clock, the process environment and the
  upstream provider.\<close>

record env =
  dateNow :: int
  processEnv :: config
  fetch :: "payload \<Rightarrow> fetchOutcome"

text \<open>A header value is the decimal spelling of an integer (\<open>n.toString()\<close>) or a
  literal text. The message of an error response is a string, or the engine's own
  text of a \<open>TypeError\<close>.\<close>

datatype hval = HNum int | HText string

datatype messageText = Msg jsstring | EngineText

datatype responseBody = JsonBody messageText string | StreamBody jsstring

record response =
  status :: nat
  headers :: "(string \<times> hval) list"
  rbody :: responseBody

text \<open>The response, the rate-limit map after the request, and the payload of the
  upstream call when one was made.\<close>

record postResult =
  reply :: response
  rateStateAfter :: rateState
  upstreamCall :: "payload option"

definition jsonError :: "messageText \<Rightarrow> nat \<Rightarrow> string \<Rightarrow> (string \<times> hval) list \<Rightarrow> response" where
  "jsonError message status' code hs = \<lparr>status = status', headers = hs, rbody = JsonBody message code\<rparr>"

fun errorMessage :: "js_error \<Rightarrow> messageText" where
  "errorMessage (Error m) = Msg m"
| "errorMessage TypeError = EngineText"

text \<open>\<open>String.prototype.includes\<close>\<close>

fun includesStr :: "jsstring \<Rightarrow> jsstring \<Rightarrow> bool" where
  "includesStr [] needle = (needle = [])"
| "includesStr (c # cs) needle =
     (if take (length needle) (c # cs) = needle then True else includesStr cs needle)"

definition getClientId :: "request \<Rightarrow> jsstring" where
  "getClientId req =
     (let direct = (case ip req of Some a \<Rightarrow> a | None \<Rightarrow> js ''unknown'')
      in case forwardedFor req of
           None \<Rightarrow> direct
         | Some forwarded \<Rightarrow>
             if forwarded = [] then direct
             else
               (let first = trim (takeWhile (\<lambda>c. c \<noteq> 44) forwarded)
                in if first = [] then js ''unknown'' else first))"

text \<open>\<open>messages.map((message) => coerceMessage(message))\<close>: the first error thrown
  ends the map.\<close>

fun coerceAll :: "platform \<Rightarrow> json list \<Rightarrow> js_error + ChatMessage list" where
  "coerceAll P [] = Inr []"
| "coerceAll P (m # ms) =
     (case coerceMessage P m of
        Inl e \<Rightarrow> Inl e
      | Inr c \<Rightarrow> (case coerceAll P ms of Inl e \<Rightarrow> Inl e | Inr cs \<Rightarrow> Inr (c # cs)))"

text \<open>\<open>typeof characterPrompt === 'string' ?\<close>
  \<open>sanitizePrompt(characterPrompt).slice(0, MAX_PROMPT_CHARS) : ''\<close>\<close>

definition characterPromptValue :: "json option \<Rightarrow> jsstring" where
  "characterPromptValue characterPrompt =
     (case characterPrompt of
        Some (JStr s) \<Rightarrow> take MAX_PROMPT_CHARS (sanitizePrompt s)
      | _ \<Rightarrow> [])"

text \<open>\<open>safeMsgs\<close> after the character prompt is put in front.\<close>

definition withCharacterPrompt :: "jsstring \<Rightarrow> ChatMessage list \<Rightarrow> ChatMessage list" where
  "withCharacterPrompt cpv safeMsgs =
     (if cpv \<noteq> [] then \<lparr>role = System, content = Text cpv\<rparr> # safeMsgs else safeMsgs)"

text \<open>\<open>[...safeMsgs].reverse().find((msg) => msg.role === 'user')\<close>\<close>

definition lastUserMessage :: "ChatMessage list \<Rightarrow> ChatMessage option" where
  "lastUserMessage safeMsgs = find (\<lambda>msg. role msg = User) (rev safeMsgs)"

text \<open>The loop over \<open>textSegments\<close>: the first error \<open>guardOrThrow\<close> throws, if any.\<close>

fun guardSegments :: "platform \<Rightarrow> jsstring list \<Rightarrow> js_error option" where
  "guardSegments P [] = None"
| "guardSegments P (segment # rest) =
     (case guardOrThrow P segment of Inl e \<Rightarrow> Some e | Inr u \<Rightarrow> guardSegments P rest)"

text \<open>\<open>Math.min(Math.max(typeof temperature === 'number' ? temperature : 0.8, 0), 2)\<close>\<close>

definition clampedTemp :: "json option \<Rightarrow> jsnum" where
  "clampedTemp t =
     (case t of
        Some (JNum (Fin r)) \<Rightarrow> Fin (min (max r 0) 2)
      | Some (JNum PosInf) \<Rightarrow> Fin 2
      | Some (JNum NegInf) \<Rightarrow> Fin 0
      | Some (JNum NaN) \<Rightarrow> NaN
      | _ \<Rightarrow> Fin (min (max (4 / 5) 0) 2))"

text \<open>\<open>xs.slice(-n)\<close>\<close>

definition sliceLast :: "nat \<Rightarrow> 'a list \<Rightarrow> 'a list" where
  "sliceLast n xs = drop (length xs - n) xs"

text \<open>\<open>[systemMsg, ...safeMsgs].slice(-51)\<close>\<close>

definition finalMsgs :: "jsstring \<Rightarrow> ChatMessage list \<Rightarrow> ChatMessage list" where
  "finalMsgs systemPromptValue safeMsgs =
     (let systemMsg = \<lparr>role = System, content = Text systemPromptValue\<rparr>
      in sliceLast 51 (systemMsg # safeMsgs))"

definition rateLimitHeaders :: "int \<Rightarrow> int \<Rightarrow> int \<Rightarrow> (string \<times> hval) list" where
  "rateLimitHeaders limit' remaining' resetSeconds' =
     [(''RateLimit-Limit'', HNum limit'),
      (''RateLimit-Remaining'', HNum (max 0 remaining')),
      (''RateLimit-Reset'', HNum resetSeconds')]"

definition internalError :: messageText where
  "internalError = Msg (js ''Error interno del servidor'')"

text \<open>The \<open>catch\<close> block that closes \<open>POST\<close>. The engine's text of a \<open>TypeError\<close>
  is an English phrase about the failed call; it does not include the Spanish phrase
  the block looks for.\<close>

definition proxyCatch :: "js_error \<Rightarrow> (string \<times> hval) list \<Rightarrow> response" where
  "proxyCatch error hs =
     (case error of
        Error m \<Rightarrow>
          if includesStr m (js ''viola nuestras reglas'')
          then jsonError (Msg m) 400 ''bad_request'' hs
          else jsonError internalError 500 ''internal_server_error'' hs
      | TypeError \<Rightarrow> jsonError internalError 500 ''internal_server_error'' hs)"

text \<open>From \<open>await fetch(...)\<close> to the end of the \<open>try\<close> block.\<close>

definition relay :: "fetchOutcome \<Rightarrow> (string \<times> hval) list \<Rightarrow> response" where
  "relay outcome hs =
     (case outcome of
        FetchThrows e \<Rightarrow> proxyCatch e hs
      | FetchResolves apiRes \<Rightarrow>
          (case upBody apiRes of
             None \<Rightarrow>
               jsonError
                 (case upError apiRes of Some m \<Rightarrow> Msg m | None \<Rightarrow> Msg (js ''Error en la API de xAI''))
                 (if upStatus apiRes = 0 then 502 else upStatus apiRes)
                 ''internal_server_error'' hs
           | Some b \<Rightarrow>
               if ok apiRes then
                 \<lparr>status = 200,
                  headers =
                    [(''Content-Type'', HText ''text/event-stream''),
                     (''Cache-Control'', HText ''no-cache''),
                     (''Connection'', HText ''keep-alive''),
                     (''X-Robots-Tag'', HText ''noindex'')] @ hs,
                  rbody = StreamBody b\<rparr>
               else
                 jsonError
                   (case upError apiRes of Some m \<Rightarrow> Msg m | None \<Rightarrow> Msg (js ''Error en la API de xAI''))
                   (if upStatus apiRes = 0 then 502 else upStatus apiRes)
                   ''internal_server_error'' hs))"

definition badRequest :: "messageText \<Rightarrow> (string \<times> hval) list \<Rightarrow> response \<times> payload option" where
  "badRequest message hs = (jsonError message 400 ''bad_request'' hs, None)"

definition invalidSystemPrompt :: messageText where
  "invalidSystemPrompt = Msg (js ''systemPrompt inv'' @ [225] @ js ''lido o demasiado largo'')"

definition invalidMessages :: messageText where
  "invalidMessages = Msg (js ''messages inv'' @ [225] @ js ''lido o demasiados elementos'')"

text \<open>
  The \<open>try\<close> block of \<open>POST\<close> from \<open>await req.json()\<close> on, with the \<open>catch\<close> block for
  what it throws: \<open>hs\<close> are the rate-limit headers computed at admission. Destructuring
  a \<open>null\<close> body raises a \<open>TypeError\<close>.
\<close>

definition afterAdmission ::
  "platform \<Rightarrow> env \<Rightarrow> (string \<times> hval) list \<Rightarrow> js_error + json \<Rightarrow> response \<times> payload option" where
  "afterAdmission P E hs parsed =
     (case parsed of
        Inl e \<Rightarrow> (proxyCatch e hs, None)
      | Inr b \<Rightarrow>
          if b = JNull then (proxyCatch TypeError hs, None)
          else
            (case getProp b (js ''model'') of
               Some (JStr model') \<Rightarrow>
                 if model' = [] \<or> model' \<notin> set ALLOWED_MODELS
                 then badRequest (Msg (js ''Modelo no v'' @ [225] @ js ''lido'')) hs
                 else
                   (case getProp b (js ''systemPrompt'') of
                      Some (JStr systemPrompt) \<Rightarrow>
                        if length systemPrompt = 0 \<or> length systemPrompt > MAX_PROMPT_CHARS
                        then badRequest invalidSystemPrompt hs
                        else
                          (let systemPromptValue = sanitizePrompt systemPrompt
                           in if length systemPromptValue = 0
                              then badRequest invalidSystemPrompt hs
                              else
                                (let cpv = characterPromptValue (getProp b (js ''characterPrompt''))
                                 in case getProp b (js ''messages'') of
                                      Some (JArr rawMessages) \<Rightarrow>
                                        if length rawMessages = 0 \<or> length rawMessages > MAX_MESSAGES
                                        then badRequest invalidMessages hs
                                        else
                                          (case coerceAll P rawMessages of
                                             Inl parseError \<Rightarrow> badRequest (errorMessage parseError) hs
                                           | Inr coerced \<Rightarrow>
                                               (let safeMsgs = withCharacterPrompt cpv coerced
                                                in case lastUserMessage safeMsgs of
                                                     None \<Rightarrow>
                                                       badRequest (Msg (js ''No hay mensaje de usuario'')) hs
                                                   | Some lastUser \<Rightarrow>
                                                       (case guardSegments P
                                                               (extractTextSegments (content lastUser)) of
                                                          Some error \<Rightarrow> badRequest (errorMessage error) hs
                                                        | None \<Rightarrow>
                                                            (let p =
                                                               \<lparr>model = model',
                                                                temperature =
                                                                  clampedTemp (getProp b (js ''temperature'')),
                                                                stream = True,
                                                                messages = finalMsgs systemPromptValue safeMsgs,
                                                                max_output_tokens =
                                                                  resolvedMaxTokens
                                                                    (getProp b (js ''responseLevel''))
                                                                    (getProp b (js ''maxTokens''))\<rparr>
                                                             in case XAI_API_KEY (processEnv E) of
                                                                  None \<Rightarrow>
                                                                    (jsonError
                                                                       (Msg (js ''Configuraci'' @ [243]
                                                                          @ js ''n del servidor incompleta''))
                                                                       500 ''internal_server_error'' hs,
                                                                     None)
                                                                | Some apiKey \<Rightarrow>
                                                                    if apiKey = [] then
                                                                      (jsonError
                                                                         (Msg (js ''Configuraci'' @ [243]
                                                                            @ js ''n del servidor incompleta''))
                                                                         500 ''internal_server_error'' hs,
                                                                       None)
                                                                    else (relay (fetch E p) hs, Some p)))))
                                    | _ \<Rightarrow> badRequest invalidMessages hs))
                    | _ \<Rightarrow> badRequest invalidSystemPrompt hs)
             | _ \<Rightarrow> badRequest (Msg (js ''Modelo no v'' @ [225] @ js ''lido'')) hs))"

text \<open>\<open>requestOrigin && requestOrigin !== origin\<close> and
  \<open>!contentType || !contentType.includes('application/json')\<close>\<close>

definition foreignOrigin :: "request \<Rightarrow> bool" where
  "foreignOrigin req =
     (case originHeader req of None \<Rightarrow> False | Some ro \<Rightarrow> ro \<noteq> [] \<and> ro \<noteq> urlOrigin req)"

definition notJson :: "request \<Rightarrow> bool" where
  "notJson req =
     (case contentTypeHeader req of
        None \<Rightarrow> True
      | Some ct \<Rightarrow> \<not> includesStr ct (js ''application/json''))"

text \<open>\<open>POST\<close>, on the rate-limit map as it stands when the request arrives.\<close>

definition POST :: "platform \<Rightarrow> env \<Rightarrow> rateState \<Rightarrow> request \<Rightarrow> postResult" where
  "POST P E rateState req =
     (if foreignOrigin req then
        \<lparr>reply = jsonError (Msg (js ''Acceso prohibido: Origen no autorizado'')) 403 ''forbidden'' [],
         rateStateAfter = rateState, upstreamCall = None\<rparr>
      else if notJson req then
        \<lparr>reply = jsonError (Msg (js ''Content-Type debe ser application/json'')) 415
                   ''unsupported_media_type'' [],
         rateStateAfter = rateState, upstreamCall = None\<rparr>
      else
        (let clientId = getClientId req
         in case applyRateLimit (processEnv E) (dateNow E) rateState clientId of
              (Rejected limit' retryAfter resetSeconds', rateState') \<Rightarrow>
                \<lparr>reply =
                   jsonError (Msg (js ''Demasiadas solicitudes. Intenta de nuevo en unos segundos.''))
                     429 ''rate_limited''
                     [(''Retry-After'', HNum retryAfter),
                      (''RateLimit-Limit'', HNum limit'),
                      (''RateLimit-Remaining'', HNum 0),
                      (''RateLimit-Reset'', HNum resetSeconds')],
                 rateStateAfter = rateState', upstreamCall = None\<rparr>
            | (Allowed limit' remaining' resetSeconds', rateState') \<Rightarrow>
                (case afterAdmission P E (rateLimitHeaders limit' remaining' resetSeconds') (body req) of
                   (res, call) \<Rightarrow>
                     \<lparr>reply = res, rateStateAfter = rateState', upstreamCall = call\<rparr>)))"

text \<open>The text segments of the newest user-role message of the coerced message list
  of a request body, when the list exists and has a user message: what the guard loop
  of \<open>POST\<close> runs over.\<close>

definition newestUserSegments :: "platform \<Rightarrow> json \<Rightarrow> jsstring list option" where
  "newestUserSegments P b =
     (case getProp b (js ''messages'') of
        Some (JArr rawMessages) \<Rightarrow>
          (case coerceAll P rawMessages of
             Inl e \<Rightarrow> None
           | Inr coerced \<Rightarrow>
               (case lastUserMessage
                       (withCharacterPrompt
                          (characterPromptValue (getProp b (js ''characterPrompt''))) coerced) of
                  None \<Rightarrow> None
                | Some lastUser \<Rightarrow> Some (extractTextSegments (content lastUser))))
      | _ \<Rightarrow> None)"

text \<open>A text segment of a message, as the specification reads it: the plain text of
  the message, or the text of one of its text parts.\<close>

definition textSegmentOf :: "jsstring \<Rightarrow> ChatMessage \<Rightarrow> bool" where
  "textSegmentOf seg m =
     (case content m of Text s \<Rightarrow> seg = s | Parts ps \<Rightarrow> TextPart seg \<in> set ps)"

text \<open>A request passes the origin and content-type checks; the rate limiter admits
  it.\<close>

definition passesChecks :: "request \<Rightarrow> bool" where
  "passesChecks req = (\<not> foreignOrigin req \<and> \<not> notJson req)"

definition admitted :: "env \<Rightarrow> rateState \<Rightarrow> request \<Rightarrow> bool" where
  "admitted E rateState req =
     (admittedRemaining
        (fst (applyRateLimit (processEnv E) (dateNow E) rateState (getClientId req))) \<noteq> None)"

text \<open>The count stored for a client, 0 when it has no live entry at the given time.\<close>

definition liveCount :: "int \<Rightarrow> rateState \<Rightarrow> jsstring \<Rightarrow> int" where
  "liveCount t rateState c =
     (case cleanupRateState t rateState c of None \<Rightarrow> 0 | Some e \<Rightarrow> count e)"

section \<open>The JSON of a message\<close>

text \<open>The JSON that a client sends for a message of the data model: a text part, an
  image part with a URL and an optional \<open>detail\<close> property of any JSON value, and a
  message with a role and a list of parts or a plain text.\<close>

definition roleName :: "Role \<Rightarrow> jsstring" where
  "roleName r =
     (case r of System \<Rightarrow> js ''system'' | User \<Rightarrow> js ''user'' | Assistant \<Rightarrow> js ''assistant'')"

definition textPartJson :: "jsstring \<Rightarrow> json" where
  "textPartJson t = JObj [(js ''type'', JStr (js ''text'')), (js ''text'', JStr t)]"

definition imagePartJson :: "jsstring \<Rightarrow> json option \<Rightarrow> json" where
  "imagePartJson u d =
     JObj [(js ''type'', JStr (js ''image_url'')),
           (js ''image_url'',
            JObj ((js ''url'', JStr u) # (case d of None \<Rightarrow> [] | Some v \<Rightarrow> [(js ''detail'', v)])))]"

definition messageJson :: "Role \<Rightarrow> json list \<Rightarrow> json" where
  "messageJson r parts = JObj [(js ''role'', JStr (roleName r)), (js ''content'', JArr parts)]"

definition textMessageJson :: "Role \<Rightarrow> jsstring \<Rightarrow> json" where
  "textMessageJson r t = JObj [(js ''role'', JStr (roleName r)), (js ''content'', JStr t)]"

text \<open>A \<open>detail\<close> property that is missing or a string, and the level it stands for:
  its lower-case form when that is one of the three levels, else \<open>auto\<close>.\<close>

definition stringOrMissing :: "json option \<Rightarrow> bool" where
  "stringOrMissing d = (case d of None \<Rightarrow> True | Some (JStr s) \<Rightarrow> True | Some v \<Rightarrow> False)"

definition detailOf :: "platform \<Rightarrow> json option \<Rightarrow> jsstring" where
  "detailOf P d =
     (case d of
        Some (JStr s) \<Rightarrow>
          if s \<noteq> [] \<and> toLowerCase P s \<in> set DETAIL_LEVELS then toLowerCase P s else js ''auto''
      | _ \<Rightarrow> js ''auto'')"

text \<open>The padding that \<open>getDataUrlPayload\<close> subtracts.\<close>

definition paddingOf :: "jsstring \<Rightarrow> int" where
  "paddingOf b = (if endsWith b (js ''=='') then 2 else if endsWith b (js ''='') then 1 else 0)"

section \<open>A platform and inputs for evaluation\<close>

text \<open>
  A platform that agrees with ECMAScript and the URL standard on the inputs the
  evaluated examples below give it. \<open>toLowerCase\<close> and \<open>normalize\<close> are exact on strings
  of ASCII code units. \<open>toNumber\<close> is exact on the empty string, on strings of decimal
  digits and on every string that is not a numeric literal (in particular, every
  string with a letter that no numeric literal contains); other spellings of numbers
  (signs, fractions, exponents, radix prefixes, surrounding white space) are not
  recognised by it. \<open>urlProtocol\<close> is exact on absolute \<open>http\<close> and \<open>https\<close> URLs with an
  ASCII host name and on \<open>data:\<close> URLs.
\<close>

definition asciiLower :: "jsstring \<Rightarrow> jsstring" where
  "asciiLower s = map (\<lambda>c. if 65 \<le> c \<and> c \<le> 90 then c + 32 else c) s"

definition asciiToNumber :: "jsstring \<Rightarrow> jsnum" where
  "asciiToNumber s =
     (if s = [] then Fin 0
      else if list_all (\<lambda>c. 48 \<le> c \<and> c \<le> 57) s then Fin (of_nat (decimalValue s))
      else NaN)"

definition asciiUrlProtocol :: "jsstring \<Rightarrow> jsstring option" where
  "asciiUrlProtocol u =
     (let l = asciiLower u
      in if take 8 l = js ''https://'' \<and> length l > 8 then Some (js ''https:'')
         else if take 7 l = js ''http://'' \<and> length l > 7 then Some (js ''http:'')
         else if take 5 l = js ''data:'' then Some (js ''data:'')
         else None)"

definition asciiPlatform :: platform where
  "asciiPlatform =
     \<lparr>toLowerCase = asciiLower, normalizeNFKD = (\<lambda>s. s), toNumber = asciiToNumber,
      urlProtocol = asciiUrlProtocol\<rparr>"

definition newYear2024 :: int where
  "newYear2024 = 1704067200000"

definition okStream :: upstreamResponse where
  "okStream = \<lparr>ok = True, upStatus = 200, upBody = Some (js ''data: [DONE]''), upError = None\<rparr>"

definition testEnv :: env where
  "testEnv = \<lparr>dateNow = newYear2024, processEnv = defaultConfig, fetch = (\<lambda>p. FetchResolves okStream)\<rparr>"

text \<open>A short data URL (the eight bytes of the PNG signature), and the data URL of
  the route's size test: \<open>Math.ceil((20 * 1024 * 1024 + 10) / 3) * 4\<close> letters \<open>A\<close>.\<close>

definition tinyPng :: jsstring where
  "tinyPng = js ''data:image/png;base64,iVBORw0KGgo=''"

definition oversizedDataUrl :: jsstring where
  "oversizedDataUrl = js ''data:image/png;base64,'' @ replicate 27962040 65"

text \<open>The request of the route's tests (\<open>buildRequest\<close>): the properties given first
  override the defaults that follow.\<close>

definition requestBody :: "(jsstring \<times> json) list \<Rightarrow> json list \<Rightarrow> json" where
  "requestBody overrides msgs =
     JObj (overrides @
           [(js ''model'', JStr (js ''grok-4-fast-reasoning'')),
            (js ''temperature'', JNum (Fin (4 / 5))),
            (js ''systemPrompt'', JStr (js ''hola'')),
            (js ''messages'', JArr msgs)])"

definition buildRequest :: "json \<Rightarrow> request" where
  "buildRequest b =
     \<lparr>urlOrigin = js ''https://example.com'',
      originHeader = Some (js ''https://example.com''),
      contentTypeHeader = Some (js ''application/json''),
      forwardedFor = None, ip = None, body = Inr b\<rparr>"

definition holaMessage :: json where
  "holaMessage = textMessageJson User (js ''hola'')"

text \<open>A conversation of three messages that ends with a multipart user message.\<close>

definition mixedConversation :: "json list" where
  "mixedConversation =
     [textMessageJson User (js ''hola''),
      textMessageJson Assistant (js ''hola''),
      messageJson User
        [textPartJson (js ''hola''),
         imagePartJson (js ''https://cdn.example.com/uno.jpg'') None,
         textPartJson (js ''loli'')]]"

text \<open>A conversation at the cap of 50 messages, with a character prompt.\<close>

definition fullConversation :: request where
  "fullConversation =
     buildRequest
       (requestBody [(js ''characterPrompt'', JStr (js ''voz heroica''))] (replicate 50 holaMessage))"

text \<open>The rate-limit map after ten admitted requests of the test client in the window
  that starts at \<open>newYear2024\<close>.\<close>

definition exhaustedState :: rateState where
  "exhaustedState = Map.empty(js ''unknown'' \<mapsto> \<lparr>count = 10, resetAt = newYear2024 + 60000\<rparr>)"

section \<open>Properties of the token budget\<close>

lemma tokensForLevel_clamp:
  "tokensForLevel (Fin r) = 128 * 2 ^ nat (clamp 1 5 \<lfloor>r\<rfloor> - 1)"
proof -
  have "\<And>x::int. max 1 (min 5 x) = clamp 1 5 x"
    by (simp add: clamp_def max_def min_def)
  then show ?thesis
    by (simp only: tokensForLevel_def BASE_def Let_def jsnum.case)
qed

lemma raw_count_clamp:
  "min (max x MIN_OUTPUT_TOKENS) MAX_OUTPUT_TOKENS = clamp 128 2048 x"
  by (simp add: clamp_def max_def min_def MIN_OUTPUT_TOKENS_def MAX_OUTPUT_TOKENS_def BASE_def)

text \<open>
  C6. The budget that \<open>POST\<close> resolves is the one the specification describes: a finite
  \<open>responseLevel\<close> is floored, clamped into \<open>[1,5]\<close> and mapped to \<open>128 * 2^(level-1)\<close>,
  whatever \<open>maxTokens\<close> is; otherwise a finite \<open>maxTokens\<close> is floored and clamped into
  \<open>[128,2048]\<close>; otherwise the budget is 512. The levels 1, 2, 3, 4, 5, 0 and 9 give
  128, 256, 512, 1024, 2048, 128 and 2048.
\<close>

theorem C6_token_budget:
  "resolvedMaxTokens responseLevel maxTokens = spec_token_budget responseLevel maxTokens
   \<and> resolvedMaxTokens (Some (JNum (Fin r))) maxTokens
       = resolvedMaxTokens (Some (JNum (Fin r))) maxTokens'
   \<and> map (\<lambda>l. resolvedMaxTokens (Some (JNum (Fin l))) maxTokens) [1, 2, 3, 4, 5, 0, 9]
       = [128, 256, 512, 1024, 2048, 128, 2048]"
proof -
  have eq: "\<And>a b. resolvedMaxTokens a b = spec_token_budget a b"
    by (simp add: resolvedMaxTokens_def spec_token_budget_def tokensForLevel_clamp
        raw_count_clamp DEFAULT_OUTPUT_TOKENS_def BASE_def split: option.splits)
  have prio: "\<And>l a b. resolvedMaxTokens (Some (JNum (Fin l))) a
      = resolvedMaxTokens (Some (JNum (Fin l))) b"
    by (simp add: resolvedMaxTokens_def)
  have table: "map (\<lambda>l. spec_token_budget (Some (JNum (Fin l))) maxTokens) [1, 2, 3, 4, 5, 0, 9]
       = [128, 256, 512, 1024, 2048, 128, 2048]"
    by (simp add: spec_token_budget_def clamp_def)
  show ?thesis
    using prio [of r maxTokens maxTokens'] table by (simp add: eq)
qed

section \<open>Properties of the rate limiter\<close>

lemma ceilSeconds_div: "ceilSeconds d = - ((- d) div 1000)"
  unfolding ceilSeconds_def
  by (metis ceiling_divide_eq_div of_int_numeral)

lemma ceilSeconds_bounds: "0 < d \<Longrightarrow> d \<le> 60000 \<Longrightarrow> 1 \<le> ceilSeconds d \<and> ceilSeconds d \<le> 60"
proof -
  assume d: "0 < d" "d \<le> 60000"
  have "(- d) div 1000 < 0" using d by (simp add: div_neg_pos_less0)
  moreover have "(- 60000) div 1000 \<le> (- d) div (1000::int)"
    using d by (intro zdiv_mono1) simp_all
  ultimately show ?thesis unfolding ceilSeconds_div by simp
qed

lemma ceilSeconds_window: "ceilSeconds 60000 = 60"
  unfolding ceilSeconds_div by simp

lemma applyRateLimit_fresh:
  assumes "limitOf cfg = 10" "windowMsOf cfg = 60000"
    and "case st c of None \<Rightarrow> True | Some e \<Rightarrow> resetAt e \<le> now"
  shows "applyRateLimit cfg now st c =
     (Allowed 10 9 60, (cleanupRateState now st)(c \<mapsto> \<lparr>count = 1, resetAt = now + 60000\<rparr>))"
  using assms
  by (auto simp: applyRateLimit_def Let_def cleanupRateState_def ceilSeconds_window split: option.splits)

lemma applyRateLimit_admit:
  assumes "limitOf cfg = 10" "windowMsOf cfg = 60000"
    and "st c = Some \<lparr>count = k, resetAt = r\<rparr>" "now < r" "k < 10"
  shows "\<exists>s. applyRateLimit cfg now st c =
     (Allowed 10 (9 - k) s, (cleanupRateState now st)(c \<mapsto> \<lparr>count = k + 1, resetAt = r\<rparr>))"
  using assms
  by (auto simp: applyRateLimit_def Let_def cleanupRateState_def split: option.splits)

lemma applyRateLimit_reject:
  assumes "limitOf cfg = 10" "windowMsOf cfg = 60000"
    and "st c = Some \<lparr>count = k, resetAt = r\<rparr>" "now < r" "10 \<le> k"
  shows "applyRateLimit cfg now st c =
     (Rejected 10 (max 1 (ceilSeconds (r - now))) (max 1 (ceilSeconds (r - now))), cleanupRateState now st)
     \<and> cleanupRateState now st c = st c"
  using assms
  by (auto simp: applyRateLimit_def Let_def cleanupRateState_def split: option.splits)

text \<open>A call of another client leaves a live entry as it is.\<close>

lemma applyRateLimit_other_client:
  assumes "d \<noteq> c" "st c = Some e" "now < resetAt e"
  shows "snd (applyRateLimit cfg now st d) c = Some e"
  using assms
  by (auto simp: applyRateLimit_def Let_def cleanupRateState_def split: option.splits)

lemma successiveCalls_in_window:
  assumes "limitOf cfg = 10" "windowMsOf cfg = 60000"
  shows "st c = Some \<lparr>count = k, resetAt = r\<rparr> \<Longrightarrow> list_all (\<lambda>t. t < r) ts \<Longrightarrow>
     k + int (length ts) \<le> 10 \<Longrightarrow>
     map admittedRemaining (fst (successiveCalls cfg st c ts))
        = map (\<lambda>i. Some (9 - k - int i)) [0..<length ts]
     \<and> snd (successiveCalls cfg st c ts) c = Some \<lparr>count = k + int (length ts), resetAt = r\<rparr>"
proof (induction ts arbitrary: st k)
  case Nil
  then show ?case by simp
next
  case (Cons t ts)
  from Cons.prems have t: "t < r" and k: "k < 10" by auto
  from applyRateLimit_admit [where cfg=cfg and st=st and c=c and k=k and r=r and now=t] assms Cons.prems(1) t k
  obtain s where step: "applyRateLimit cfg t st c =
     (Allowed 10 (9 - k) s, (cleanupRateState t st)(c \<mapsto> \<lparr>count = k + 1, resetAt = r\<rparr>))"
    by blast
  let ?st = "(cleanupRateState t st)(c \<mapsto> \<lparr>count = k + 1, resetAt = r\<rparr>)"
  have "?st c = Some \<lparr>count = k + 1, resetAt = r\<rparr>" by simp
  moreover have "list_all (\<lambda>t. t < r) ts" using Cons.prems by simp
  moreover have "k + 1 + int (length ts) \<le> 10" using Cons.prems by simp
  ultimately have IH: "map admittedRemaining (fst (successiveCalls cfg ?st c ts))
        = map (\<lambda>i. Some (9 - (k + 1) - int i)) [0..<length ts]
     \<and> snd (successiveCalls cfg ?st c ts) c = Some \<lparr>count = k + 1 + int (length ts), resetAt = r\<rparr>"
    by (rule Cons.IH)
  have shift: "map (\<lambda>i. Some (9 - k - int i)) [0..<Suc (length ts)]
     = Some (9 - k) # map (\<lambda>i. Some (9 - (k + 1) - int i)) [0..<length ts]"
    by (simp add: map_upt_Suc del: upt_Suc)
  have unfold: "successiveCalls cfg st c (t # ts) =
      (Allowed 10 (9 - k) s # fst (successiveCalls cfg ?st c ts), snd (successiveCalls cfg ?st c ts))"
    by (simp only: successiveCalls.simps step prod.case split_beta fst_conv snd_conv)
  have len: "k + int (length (t # ts)) = k + 1 + int (length ts)" by simp
  show ?case
    unfolding unfold fst_conv snd_conv list.map admittedRemaining.simps len
    unfolding length_Cons shift
    using IH by (simp only: simp_thms)
qed


text \<open>
  C5. With limit 10 and a window of 60000 ms, starting from a map where the client has
  no live entry at the first call (time \<open>t0\<close>): the first ten calls made at times
  within the window \<open>[t0, t0 + 60000)\<close> are admitted with remaining 9, 8, ..., 0 in
  order and leave the stored count at 10; an eleventh call within the window is
  rejected with \<open>retryAfterSeconds = ceil((resetAt - now) / 1000)\<close>, which lies in
  \<open>[1, 60]\<close>, and the stored entry still has count 10; and a call at or after the
  stored \<open>resetAt\<close> of any entry is admitted with remaining 9 and stores a fresh entry
  with count 1 and \<open>resetAt = now + 60000\<close>.
\<close>

theorem C5_rate_limit_window:
  assumes "limitOf cfg = 10" and "windowMsOf cfg = 60000"
    and "case st c of None \<Rightarrow> True | Some e \<Rightarrow> resetAt e \<le> t0"
    and "length ts = 9"
    and "list_all (\<lambda>t. t0 \<le> t \<and> t < t0 + 60000) (ts @ [t11])"
    and "st10 = snd (successiveCalls cfg st c (t0 # ts))"
    and "retry = ceilSeconds (t0 + 60000 - t11)"
  shows "map admittedRemaining (fst (successiveCalls cfg st c (t0 # ts)))
           = [Some 9, Some 8, Some 7, Some 6, Some 5, Some 4, Some 3, Some 2, Some 1, Some 0]
       \<and> st10 c = Some \<lparr>count = 10, resetAt = t0 + 60000\<rparr>
       \<and> fst (applyRateLimit cfg t11 st10 c) = Rejected 10 retry retry
       \<and> 1 \<le> retry \<and> retry \<le> 60
       \<and> snd (applyRateLimit cfg t11 st10 c) c = Some \<lparr>count = 10, resetAt = t0 + 60000\<rparr>
       \<and> (\<forall>now st2 e. st2 c = Some e \<and> resetAt e \<le> now \<longrightarrow>
             fst (applyRateLimit cfg now st2 c) = Allowed 10 9 60
             \<and> snd (applyRateLimit cfg now st2 c) c = Some \<lparr>count = 1, resetAt = now + 60000\<rparr>)"
proof -
  let ?st1 = "(cleanupRateState t0 st)(c \<mapsto> \<lparr>count = 1, resetAt = t0 + 60000\<rparr>)"
  have first: "applyRateLimit cfg t0 st c = (Allowed 10 9 60, ?st1)"
    using applyRateLimit_fresh [where cfg=cfg and st=st and c=c and now=t0] assms(1-3) by simp
  have in_window: "list_all (\<lambda>t. t < t0 + 60000) ts" and t11: "t0 \<le> t11" "t11 < t0 + 60000"
    using assms(5) by (simp_all add: list_all_iff)
  have rest: "map admittedRemaining (fst (successiveCalls cfg ?st1 c ts))
        = map (\<lambda>i. Some (9 - 1 - int i)) [0..<length ts]
     \<and> snd (successiveCalls cfg ?st1 c ts) c
        = Some \<lparr>count = 1 + int (length ts), resetAt = t0 + 60000\<rparr>"
    using successiveCalls_in_window [where cfg=cfg and st="?st1" and c=c and k=1 and r="t0 + 60000" and ts=ts] assms(1,2,4) in_window
    by simp
  have unfold: "successiveCalls cfg st c (t0 # ts) =
      (Allowed 10 9 60 # fst (successiveCalls cfg ?st1 c ts), snd (successiveCalls cfg ?st1 c ts))"
    by (simp only: successiveCalls.simps first prod.case split_beta fst_conv snd_conv)
  have nine: "[0..<9] = [0, 1, 2, 3, 4, 5, 6, 7, 8]"
    by (simp add: upt_rec)
  have remaining: "map admittedRemaining (fst (successiveCalls cfg st c (t0 # ts)))
           = [Some 9, Some 8, Some 7, Some 6, Some 5, Some 4, Some 3, Some 2, Some 1, Some 0]"
    unfolding unfold using rest by (simp add: assms(4) nine)
  have st10: "st10 c = Some \<lparr>count = 10, resetAt = t0 + 60000\<rparr>"
    unfolding assms(6) unfold using rest by (simp add: assms(4))
  have eleventh: "applyRateLimit cfg t11 st10 c =
     (Rejected 10 (max 1 retry) (max 1 retry), cleanupRateState t11 st10)
     \<and> cleanupRateState t11 st10 c = st10 c"
    using applyRateLimit_reject [where cfg=cfg and st=st10 and c=c and k=10 and r="t0 + 60000" and now=t11] assms(1,2) st10 t11
    by (simp add: assms(7))
  have bounds: "1 \<le> retry \<and> retry \<le> 60"
    unfolding assms(7) using t11 by (intro ceilSeconds_bounds) simp_all
  have fresh: "\<forall>now st2 e. st2 c = Some e \<and> resetAt e \<le> now \<longrightarrow>
             fst (applyRateLimit cfg now st2 c) = Allowed 10 9 60
             \<and> snd (applyRateLimit cfg now st2 c) c = Some \<lparr>count = 1, resetAt = now + 60000\<rparr>"
  proof (intro allI impI)
    fix now :: int and st2 :: rateState and e :: RateEntry
    assume "st2 c = Some e \<and> resetAt e \<le> now"
    then show "fst (applyRateLimit cfg now st2 c) = Allowed 10 9 60
             \<and> snd (applyRateLimit cfg now st2 c) c = Some \<lparr>count = 1, resetAt = now + 60000\<rparr>"
      using applyRateLimit_fresh [where cfg=cfg and st=st2 and c=c and now=now] assms(1,2) by simp
  qed
  show ?thesis
    using remaining st10 eleventh bounds fresh by (simp add: max_def)
qed

text \<open>The instance of the route's tests: eleven calls at the same clock reading
  from an empty map.\<close>

theorem C5_rate_limit_window_witness:
  "map admittedRemaining
     (fst (successiveCalls defaultConfig Map.empty (js ''203.0.113.7'')
        (newYear2024 # replicate 9 newYear2024)))
     = [Some 9, Some 8, Some 7, Some 6, Some 5, Some 4, Some 3, Some 2, Some 1, Some 0]
   \<and> fst (applyRateLimit defaultConfig newYear2024
        (snd (successiveCalls defaultConfig Map.empty (js ''203.0.113.7'')
           (newYear2024 # replicate 9 newYear2024))) (js ''203.0.113.7''))
     = Rejected 10 60 60"
proof -
  have cfg: "limitOf defaultConfig = 10" "windowMsOf defaultConfig = 60000"
    by (simp_all add: limitOf_def windowMsOf_def defaultConfig_def)
  have fresh: "case Map.empty (js ''203.0.113.7'') of None \<Rightarrow> True
      | Some e \<Rightarrow> resetAt e \<le> newYear2024"
    by simp
  have len: "length (replicate 9 newYear2024) = 9" by simp
  have win: "list_all (\<lambda>t. newYear2024 \<le> t \<and> t < newYear2024 + 60000)
      (replicate 9 newYear2024 @ [newYear2024])"
    by (simp add: list_all_iff)
  have retry: "ceilSeconds (newYear2024 + 60000 - newYear2024) = 60"
    by (simp add: ceilSeconds_window)
  show ?thesis
    using C5_rate_limit_window [OF cfg fresh len win refl refl] retry
    by simp
qed


section \<open>Properties of the content guard\<close>

lemmas regex_defs = regexTest_def str_def js_def space_def nonSpace_def digit_def word_def
  whiteSpace_def wordChars_def

lemmas normalize_defs = normalizeText_def applyLeetspeak_def leetReplacer_def stripMarks_def
  charAtNumber_def charAtKey_def canonicalIndex_def decimalValue_def isLetter_def
  asciiPlatform_def asciiLower_def asciiToNumber_def Let_def

lemmas guard_eval = guardOrThrow_def UNDERAGE_LEX_def UNDERAGE_AGE_def UNDERAGE_EXCLUSIONS_def
  HARD_RULES_def DOXXING_def REAL_LIKENESS_def NSFW_TERMS_def normalize_defs regex_defs

lemma reasons_distinct:
  "distinct [reasonUnderage, reasonUnderageAge, reasonHard, reasonDoxxing, reasonLikeness]"
  by (simp add: reasonUnderage_def reasonUnderageAge_def reasonHard_def reasonDoxxing_def
      reasonLikeness_def js_def)

text \<open>
  C3. For every platform and every text, \<open>guardOrThrow\<close> throws the reason of the first
  of the five policy rules that matches, in the fixed order, and returns normally when
  none matches; so it returns normally if and only if no rule matches, and the five
  reasons are pairwise distinct. The text is a value: nothing is mutated.
\<close>

theorem C3_guard_first_match:
  "guardOrThrow P text =
     (case find fst (policyRules P text) of
        None \<Rightarrow> Inr ()
      | Some (matches, reason) \<Rightarrow> Inl (Error reason))
   \<and> (guardOrThrow P text = Inr () \<longleftrightarrow> list_all (\<lambda>rule. \<not> fst rule) (policyRules P text))
   \<and> distinct (map snd (policyRules P text))"
  using reasons_distinct
  by (simp add: guardOrThrow_def policyRules_def Let_def)

text \<open>
  C4, as the code has it. Let \<open>n\<close> be the normalized text. When \<open>n\<close> matches the age
  pattern (a number 1 to 17 at a word boundary, optional white space, one of the age
  units, a word boundary) and matches no exclusion phrase anywhere, the guard fails:
  with the underage-age reason when the underage lexicon does not match \<open>n\<close>, with the
  underage reason of the first rule otherwise. When \<open>n\<close> matches one of the exclusion
  phrases anywhere (they are Spanish: \<open>hace N anos\<close>, \<open>anos de experiencia\<close>,
  \<open>anos despues\<close>, \<open>anos atras\<close>, \<open>anos antiguedad\<close>, \<open>antiguedad N anos\<close>), the
  underage-age reason is never raised, and the guard passes when no other rule matches.
\<close>

theorem C4_age_rule:
  assumes "n = normalizeText P text"
  shows "(regexTest UNDERAGE_AGE n \<and> \<not> regexTest UNDERAGE_EXCLUSIONS n \<longrightarrow>
            guardOrThrow P text =
              Inl (Error (if regexTest UNDERAGE_LEX n then reasonUnderage else reasonUnderageAge)))
       \<and> (regexTest UNDERAGE_EXCLUSIONS n \<longrightarrow>
            guardOrThrow P text \<noteq> Inl (Error reasonUnderageAge))
       \<and> (regexTest UNDERAGE_EXCLUSIONS n \<and> \<not> regexTest UNDERAGE_LEX n
            \<and> \<not> regexTest HARD_RULES n \<and> \<not> regexTest DOXXING n
            \<and> \<not> (regexTest REAL_LIKENESS text \<and> regexTest NSFW_TERMS n) \<longrightarrow>
            guardOrThrow P text = Inr ())"
  using reasons_distinct assms
  by (auto simp: guardOrThrow_def Let_def)

text \<open>The two samples of the guard's tests, in ASCII: \<open>15 yrs\<close> is blocked by the age
  rule, \<open>17 anos de experiencia en soporte tecnico\<close> passes by the exclusion.\<close>

theorem C4_age_rule_witness:
  "guardOrThrow asciiPlatform (js ''15 yrs'') = Inl (Error reasonUnderageAge)
   \<and> guardOrThrow asciiPlatform (js ''17 anos de experiencia en soporte tecnico'') = Inr ()"
proof -
  let ?a = "js ''15 yrs''" and ?b = "js ''17 anos de experiencia en soporte tecnico''"
  have a: "regexTest UNDERAGE_AGE (normalizeText asciiPlatform ?a)
      \<and> \<not> regexTest UNDERAGE_EXCLUSIONS (normalizeText asciiPlatform ?a)
      \<and> \<not> regexTest UNDERAGE_LEX (normalizeText asciiPlatform ?a)"
    by (simp add: UNDERAGE_LEX_def UNDERAGE_AGE_def UNDERAGE_EXCLUSIONS_def normalize_defs
        regex_defs)
  have b: "regexTest UNDERAGE_EXCLUSIONS (normalizeText asciiPlatform ?b)
      \<and> \<not> regexTest UNDERAGE_LEX (normalizeText asciiPlatform ?b)
      \<and> \<not> regexTest HARD_RULES (normalizeText asciiPlatform ?b)
      \<and> \<not> regexTest DOXXING (normalizeText asciiPlatform ?b)
      \<and> \<not> regexTest REAL_LIKENESS ?b"
    by (simp add: UNDERAGE_LEX_def UNDERAGE_EXCLUSIONS_def HARD_RULES_def DOXXING_def
        REAL_LIKENESS_def normalize_defs regex_defs)
  show ?thesis
    using C4_age_rule [OF refl, of asciiPlatform ?a] C4_age_rule [OF refl, of asciiPlatform ?b] a b
    by (simp only: simp_thms if_False)
qed

text \<open>
  The claim as stated fails on the English phrase of the specification's own example:
  \<open>17 years of experience\<close> is rejected with the underage-age reason, because no
  exclusion phrase is English. It also fails for an age that is not adjacent to an
  exclusion phrase when such a phrase occurs elsewhere in the text: the text passes.
\<close>

theorem C4_english_exclusion_counterexample:
  "guardOrThrow asciiPlatform (js ''17 years of experience'') = Inl (Error reasonUnderageAge)
   \<and> guardOrThrow asciiPlatform (js ''tengo 15 anos y mi abuelo nacio hace 90 anos'') = Inr ()"
  by (simp add: guard_eval)

text \<open>
  C9 on the code. The replacer is declared with the parameters \<open>(match, _group, offset)\<close>
  but the pattern has no group, so \<open>offset\<close> is bound to the subject string and both
  neighbours read as empty: in \<open>l0li\<close> the \<open>0\<close> stands between two letters and is left as
  it is, and the guard, whose lexicon has \<open>loli\<close>, lets the text pass.
\<close>

theorem C9_digit_between_letters_unchanged:
  "applyLeetspeak asciiPlatform (js ''l0li'') = js ''l0li''
   \<and> guardOrThrow asciiPlatform (js ''l0li'') = Inr ()
   \<and> guardOrThrow asciiPlatform (js ''loli'') = Inl (Error reasonUnderage)"
  by (simp add: guard_eval)

section \<open>Properties of message coercion\<close>

lemmas json_eval = js_def roleName_def textPartJson_def imagePartJson_def messageJson_def
  textMessageJson_def roleOf_def imageUrlOf_def

lemma detailOf_level: "detailOf P d \<in> set DETAIL_LEVELS"
  by (simp add: detailOf_def DETAIL_LEVELS_def split: option.splits json.splits)

lemma normalizeDetail_string_or_missing:
  "stringOrMissing d \<Longrightarrow> normalizeDetail P d = Inr (detailOf P d)"
  by (auto simp: stringOrMissing_def normalizeDetail_def detailOf_def Let_def
      split: option.splits json.splits)

text \<open>The image branch of the loop body, on the JSON of an image part.\<close>

lemma coercePart_image:
  "coercePart P (imagePartJson u d) =
     (if trim u = [] then Inl invalidImageUrl
      else
        (case normalizeDetail P d of
           Inl e \<Rightarrow> Inl e
         | Inr l \<Rightarrow>
             if take 5 (trim u) = js ''data:'' then
               (case getDataUrlPayload P (trim u) of
                  None \<Rightarrow> Inl invalidDataUrl
                | Some payload \<Rightarrow>
                    if bytes payload > MAX_DATA_URL_BYTES then Inl imageTooLarge
                    else Inr (ImagePart (trim u) l))
             else if \<not> isHttpUrl P (trim u) then Inl invalidImageUrl
             else Inr (ImagePart (trim u) l)))"
proof (cases d)
  case None
  then show ?thesis
    by (simp add: coercePart_def imagePartJson_def imageUrlOf_def js_def Let_def)
next
  case (Some v)
  then show ?thesis
    by (simp add: coercePart_def imagePartJson_def imageUrlOf_def js_def Let_def)
qed

lemma coercePart_text:
  "coercePart P (textPartJson t) =
     (if sanitizeTextSegment t = [] \<or> length (sanitizeTextSegment t) > MAX_TEXT_CHARS
      then Inl invalidMessage else Inr (TextPart (sanitizeTextSegment t)))"
  by (simp add: coercePart_def textPartJson_def js_def Let_def)

text \<open>
  C8, as the code has it. For an image part whose \<open>detail\<close> property is missing or is
  a string, \<open>normalizeDetail\<close> never throws and yields one of the three levels; the
  coercion of the part fails exactly when it fails without the property, and on
  success differs only in the detail. The detail is \<open>auto\<close> when the property is missing
  or its lower-case form is none of the three levels, and a level written in lower
  case is kept as given. A string is compared after \<open>toLowerCase\<close>, so \<open>HIGH\<close> becomes
  \<open>high\<close>.
\<close>

theorem C8_detail_normalized:
  assumes "stringOrMissing d"
  shows "normalizeDetail P d = Inr (detailOf P d)
     \<and> detailOf P d \<in> set DETAIL_LEVELS
     \<and> coercePart P (imagePartJson u d)
         = map_sum id (\<lambda>p. ImagePart (url p) (detailOf P d)) (coercePart P (imagePartJson u None))
     \<and> ((\<forall>s. d = Some (JStr s) \<longrightarrow> toLowerCase P s \<notin> set DETAIL_LEVELS)
          \<longrightarrow> detailOf P d = js ''auto'')
     \<and> (\<forall>s. d = Some (JStr s) \<and> s \<in> set DETAIL_LEVELS \<and> toLowerCase P s = s
          \<longrightarrow> detailOf P d = s)"
proof -
  have nd: "normalizeDetail P d = Inr (detailOf P d)"
    using assms by (rule normalizeDetail_string_or_missing)
  have none: "normalizeDetail P None = Inr (js ''auto'')"
    by (simp add: normalizeDetail_def)
  have same: "coercePart P (imagePartJson u d)
         = map_sum id (\<lambda>p. ImagePart (url p) (detailOf P d)) (coercePart P (imagePartJson u None))"
    by (simp add: coercePart_image nd none split: option.splits)
  have auto: "(\<forall>s. d = Some (JStr s) \<longrightarrow> toLowerCase P s \<notin> set DETAIL_LEVELS)
          \<longrightarrow> detailOf P d = js ''auto''"
    by (auto simp: detailOf_def split: option.splits json.splits)
  have kept: "\<forall>s. d = Some (JStr s) \<and> s \<in> set DETAIL_LEVELS \<and> toLowerCase P s = s
          \<longrightarrow> detailOf P d = s"
    by (auto simp: detailOf_def DETAIL_LEVELS_def js_def)
  show ?thesis
    using nd detailOf_level same auto kept by blast
qed


lemma isWhite_numeral: "isWhite (numeral k) = inRanges whiteSpace (numeral k)"
  by (simp add: isWhite_def)

lemmas platform_eval = asciiPlatform_def asciiLower_def asciiUrlProtocol_def isHttpUrl_def
  trim_def isWhite_numeral whiteSpace_def

lemmas dataUrl_eval = getDataUrlPayload_def DATA_URL_PATTERN_exec_def foldCase_def base64Char_def
  endsWith_def MAX_DATA_URL_BYTES_def

text \<open>The route's test: the detail \<open>ultra\<close> on an \<open>https\<close> image becomes \<open>auto\<close>.\<close>

theorem C8_detail_normalized_witness:
  "coercePart asciiPlatform
     (imagePartJson (js ''https://cdn.example.com/img.png'') (Some (JStr (js ''ultra''))))
     = Inr (ImagePart (js ''https://cdn.example.com/img.png'') (js ''auto''))"
proof -
  let ?u = "js ''https://cdn.example.com/img.png''" and ?d = "Some (JStr (js ''ultra''))"
  have str: "stringOrMissing ?d"
    by (simp add: stringOrMissing_def)
  have outside: "\<forall>s. ?d = Some (JStr s) \<longrightarrow> toLowerCase asciiPlatform s \<notin> set DETAIL_LEVELS"
    by (simp add: asciiPlatform_def asciiLower_def DETAIL_LEVELS_def js_def)
  have plain: "coercePart asciiPlatform (imagePartJson ?u None) = Inr (ImagePart ?u (js ''auto''))"
    by (simp add: coercePart_image normalizeDetail_def platform_eval js_def)
  show ?thesis
    using C8_detail_normalized [OF str, of asciiPlatform ?u] outside plain
    by simp
qed

text \<open>The claim as stated fails on \<open>HIGH\<close>: the string is not one of the three levels,
  yet the resulting detail is neither \<open>auto\<close> nor the value as given.\<close>

theorem C8_upper_case_detail_counterexample:
  "coercePart asciiPlatform
     (imagePartJson (js ''https://cdn.example.com/img.png'') (Some (JStr (js ''HIGH''))))
     = Inr (ImagePart (js ''https://cdn.example.com/img.png'') (js ''high''))
   \<and> js ''HIGH'' \<notin> set DETAIL_LEVELS
   \<and> js ''high'' \<noteq> js ''auto''
   \<and> js ''high'' \<noteq> js ''HIGH''"
  by (simp add: coercePart_image normalizeDetail_def DETAIL_LEVELS_def platform_eval js_def)

text \<open>A truthy \<open>detail\<close> that is not a string makes \<open>detail.toLowerCase()\<close> throw.\<close>

lemma normalizeDetail_truthy_non_string:
  "normalizeDetail P (Some (JNum (Fin 5))) = Inl TypeError
   \<and> normalizeDetail P (Some (JBool True)) = Inl TypeError"
  by (simp add: normalizeDetail_def)

lemma coerceMessage_parts:
  "coerceMessage P (messageJson r parts) =
     (case coerceParts P parts of
        Inl e \<Rightarrow> Inl e
      | Inr ps \<Rightarrow> if ps = [] then Inl invalidMessage else Inr \<lparr>role = r, content = Parts ps\<rparr>)"
  by (cases r) (simp_all add: coerceMessage_def messageJson_def roleName_def roleOf_def js_def
      split: sum.splits)

lemma coerceParts_append_fail:
  "coerceParts P pre = Inr accepted \<Longrightarrow> coercePart P part = Inl e \<Longrightarrow>
     coerceParts P (pre @ part # post) = Inl e"
  by (induction pre arbitrary: accepted) (auto split: sum.splits)

lemma sanitize_clean:
  "list_all (\<lambda>c. \<not> strippedControl c) t \<Longrightarrow> sanitizeTextSegment t = t"
  by (simp add: sanitizeTextSegment_def list_all_iff)

lemma getDataUrlPayload_bytes:
  "getDataUrlPayload P u = Some pl \<Longrightarrow>
     (\<exists>m raw. DATA_URL_PATTERN_exec u = Some (m, raw)
        \<and> base64 pl = filter (\<lambda>c. \<not> isWhite c) raw)
     \<and> bytes pl = int (length (base64 pl)) div 4 * 3 - paddingOf (base64 pl)"
  by (auto simp: getDataUrlPayload_def paddingOf_def Let_def split: option.splits)

text \<open>
  C7, as the code has it. A multipart message of a text part, a \<open>data:\<close> image part
  whose decoded size is within the ceiling and an \<open>http(s)\<close> image part, with details
  that are missing or strings, is accepted; role and part order are preserved, each
  text is returned without the control characters that \<open>sanitizeTextSegment\<close> strips
  (a text without them is returned exactly), each URL is returned trimmed, and each
  detail normalized. And when the role is valid and the parts before it are accepted,
  an image part whose \<open>data:\<close> URL has a decoded byte count above 20 MiB, the count
  being \<open>floor(len / 4) * 3 - padding\<close> of the base64 text without white space, makes
  \<open>coerceMessage\<close> fail with the size error.
\<close>

theorem C7_multipart_coercion:
  "(sanitizeTextSegment t \<noteq> [] \<and> length (sanitizeTextSegment t) \<le> MAX_TEXT_CHARS
      \<and> take 5 (trim u1) = js ''data:'' \<and> getDataUrlPayload P (trim u1) = Some pl
      \<and> bytes pl \<le> MAX_DATA_URL_BYTES
      \<and> trim u2 \<noteq> [] \<and> take 5 (trim u2) \<noteq> js ''data:'' \<and> isHttpUrl P (trim u2)
      \<and> stringOrMissing d1 \<and> stringOrMissing d2
    \<longrightarrow> coerceMessage P
          (messageJson r [textPartJson t, imagePartJson u1 d1, imagePartJson u2 d2])
        = Inr \<lparr>role = r,
               content = Parts [TextPart (sanitizeTextSegment t),
                                ImagePart (trim u1) (detailOf P d1),
                                ImagePart (trim u2) (detailOf P d2)]\<rparr>)
   \<and> (list_all (\<lambda>c. \<not> strippedControl c) t \<longrightarrow> sanitizeTextSegment t = t)
   \<and> (take 5 (trim u3) = js ''data:'' \<and> getDataUrlPayload P (trim u3) = Some pl3
        \<and> bytes pl3 > MAX_DATA_URL_BYTES \<and> stringOrMissing d3
        \<and> coerceParts P pre = Inr accepted
      \<longrightarrow> bytes pl3 = int (length (base64 pl3)) div 4 * 3 - paddingOf (base64 pl3)
          \<and> coerceMessage P (messageJson r (pre @ imagePartJson u3 d3 # post)) = Inl imageTooLarge)"
proof (intro conjI impI)
  assume h: "sanitizeTextSegment t \<noteq> [] \<and> length (sanitizeTextSegment t) \<le> MAX_TEXT_CHARS
      \<and> take 5 (trim u1) = js ''data:'' \<and> getDataUrlPayload P (trim u1) = Some pl
      \<and> bytes pl \<le> MAX_DATA_URL_BYTES
      \<and> trim u2 \<noteq> [] \<and> take 5 (trim u2) \<noteq> js ''data:'' \<and> isHttpUrl P (trim u2)
      \<and> stringOrMissing d1 \<and> stringOrMissing d2"
  have t: "coercePart P (textPartJson t) = Inr (TextPart (sanitizeTextSegment t))"
    using h by (simp add: coercePart_text)
  have nonempty: "trim u1 \<noteq> []"
    using h by (auto simp: js_def)
  have i1: "coercePart P (imagePartJson u1 d1) = Inr (ImagePart (trim u1) (detailOf P d1))"
    using h nonempty by (simp add: coercePart_image normalizeDetail_string_or_missing)
  have i2: "coercePart P (imagePartJson u2 d2) = Inr (ImagePart (trim u2) (detailOf P d2))"
    using h by (simp add: coercePart_image normalizeDetail_string_or_missing)
  show "coerceMessage P
          (messageJson r [textPartJson t, imagePartJson u1 d1, imagePartJson u2 d2])
        = Inr \<lparr>role = r,
               content = Parts [TextPart (sanitizeTextSegment t),
                                ImagePart (trim u1) (detailOf P d1),
                                ImagePart (trim u2) (detailOf P d2)]\<rparr>"
    by (simp add: coerceMessage_parts t i1 i2)
next
  assume "list_all (\<lambda>c. \<not> strippedControl c) t"
  then show "sanitizeTextSegment t = t" by (rule sanitize_clean)
next
  assume h: "take 5 (trim u3) = js ''data:'' \<and> getDataUrlPayload P (trim u3) = Some pl3
        \<and> bytes pl3 > MAX_DATA_URL_BYTES \<and> stringOrMissing d3
        \<and> coerceParts P pre = Inr accepted"
  then show "bytes pl3 = int (length (base64 pl3)) div 4 * 3 - paddingOf (base64 pl3)"
    using getDataUrlPayload_bytes [of P "trim u3" pl3] by simp
next
  assume h: "take 5 (trim u3) = js ''data:'' \<and> getDataUrlPayload P (trim u3) = Some pl3
        \<and> bytes pl3 > MAX_DATA_URL_BYTES \<and> stringOrMissing d3
        \<and> coerceParts P pre = Inr accepted"
  have nonempty: "trim u3 \<noteq> []"
    using h by (auto simp: js_def)
  have "coercePart P (imagePartJson u3 d3) = Inl imageTooLarge"
    using h nonempty by (simp add: coercePart_image normalizeDetail_string_or_missing)
  with h have "coerceParts P (pre @ imagePartJson u3 d3 # post) = Inl imageTooLarge"
    by (simp add: coerceParts_append_fail)
  then show "coerceMessage P (messageJson r (pre @ imagePartJson u3 d3 # post)) = Inl imageTooLarge"
    by (simp add: coerceMessage_parts)
qed

lemma trim_id:
  assumes "s \<noteq> []" "\<not> isWhite (hd s)" "\<not> isWhite (last s)"
  shows "trim s = s"
proof -
  from assms(1) obtain x xs where s: "s = x # xs" by (cases s) auto
  from assms(1) obtain ys y where r: "s = ys @ [y]" by (cases s rule: rev_cases) auto
  have "dropWhile isWhite s = s" using assms(2) s by simp
  moreover have "dropWhile isWhite (rev s) = rev s" using assms(3) r by simp
  ultimately show ?thesis by (simp add: trim_def)
qed

lemma replicate_neq_Cons: "x \<noteq> y \<Longrightarrow> replicate k x \<noteq> y # ys"
  by (cases k) auto

lemma letters_payload:
  assumes "0 < n"
  shows "getDataUrlPayload P (js ''data:image/png;base64,'' @ replicate n 65)
     = Some \<lparr>mime = toLowerCase P (js ''png''), base64 = replicate n 65,
             bytes = int n div 4 * 3\<rparr>"
proof -
  have exec: "DATA_URL_PATTERN_exec (js ''data:image/png;base64,'' @ replicate n 65)
     = Some (js ''png'', replicate n 65)"
    using assms
    by (simp add: DATA_URL_PATTERN_exec_def js_def foldCase_def base64Char_def list_all_iff)
  have white: "filter (\<lambda>c. \<not> isWhite c) (replicate n 65) = replicate n 65"
    by (simp add: isWhite_def whiteSpace_def)
  have pad: "\<not> endsWith (replicate n 65) (js ''=='')" "\<not> endsWith (replicate n 65) (js ''='')"
    by (simp_all add: endsWith_def js_def replicate_neq_Cons)
  show ?thesis
    by (simp add: getDataUrlPayload_def exec white pad)
qed

lemma oversized_trim: "trim oversizedDataUrl = oversizedDataUrl"
  by (rule trim_id) (simp_all add: oversizedDataUrl_def js_def isWhite_def whiteSpace_def)

text \<open>A message of the three kinds of part, and the data URL of the route's size test
  after a text part.\<close>

theorem C7_multipart_coercion_witness:
  "coerceMessage asciiPlatform
     (messageJson User
        [textPartJson (js ''hola''),
         imagePartJson tinyPng (Some (JStr (js ''auto''))),
         imagePartJson (js ''https://cdn.example.com/uno.jpg'') (Some (JStr (js ''low'')))])
     = Inr \<lparr>role = User,
            content = Parts [TextPart (js ''hola''),
                             ImagePart tinyPng (js ''auto''),
                             ImagePart (js ''https://cdn.example.com/uno.jpg'') (js ''low'')]\<rparr>
   \<and> coerceMessage asciiPlatform
       (messageJson User [textPartJson (js ''hola''), imagePartJson oversizedDataUrl None])
     = Inl imageTooLarge"
proof -
  let ?t = "js ''hola''" and ?u2 = "js ''https://cdn.example.com/uno.jpg''"
  let ?d1 = "Some (JStr (js ''auto''))" and ?d2 = "Some (JStr (js ''low''))"
  let ?pl = "\<lparr>mime = js ''png'', base64 = js ''iVBORw0KGgo='', bytes = 8\<rparr>"
  let ?pl3 = "\<lparr>mime = js ''png'', base64 = replicate 27962040 65, bytes = 20971530\<rparr>"
  have clean: "sanitizeTextSegment ?t = ?t"
    by (simp add: sanitizeTextSegment_def strippedControl_def js_def)
  have t1: "trim tinyPng = tinyPng"
    by (rule trim_id) (simp_all add: tinyPng_def js_def isWhite_def whiteSpace_def)
  have p1: "getDataUrlPayload asciiPlatform tinyPng = Some ?pl"
    by (simp add: tinyPng_def dataUrl_eval platform_eval js_def)
  have t2: "trim ?u2 = ?u2"
    by (rule trim_id) (simp_all add: js_def isWhite_def whiteSpace_def)
  have http: "isHttpUrl asciiPlatform ?u2"
    by (simp add: platform_eval js_def)
  have p3: "getDataUrlPayload asciiPlatform oversizedDataUrl = Some ?pl3"
  proof -
    have "getDataUrlPayload asciiPlatform (js ''data:image/png;base64,'' @ replicate 27962040 65)
       = Some \<lparr>mime = toLowerCase asciiPlatform (js ''png''), base64 = replicate 27962040 65,
               bytes = int 27962040 div 4 * 3\<rparr>"
      by (rule letters_payload) simp
    moreover have "toLowerCase asciiPlatform (js ''png'') = js ''png''"
      by (simp add: asciiPlatform_def asciiLower_def js_def)
    ultimately show ?thesis
      by (simp add: oversizedDataUrl_def)
  qed
  have first: "sanitizeTextSegment ?t \<noteq> [] \<and> length (sanitizeTextSegment ?t) \<le> MAX_TEXT_CHARS
      \<and> take 5 (trim tinyPng) = js ''data:''
      \<and> getDataUrlPayload asciiPlatform (trim tinyPng) = Some ?pl
      \<and> bytes ?pl \<le> MAX_DATA_URL_BYTES
      \<and> trim ?u2 \<noteq> [] \<and> take 5 (trim ?u2) \<noteq> js ''data:'' \<and> isHttpUrl asciiPlatform (trim ?u2)
      \<and> stringOrMissing ?d1 \<and> stringOrMissing ?d2"
    unfolding clean t1 t2 p1
    using http
    by (simp add: MAX_TEXT_CHARS_def MAX_DATA_URL_BYTES_def stringOrMissing_def tinyPng_def js_def)
  have second: "take 5 (trim oversizedDataUrl) = js ''data:''
        \<and> getDataUrlPayload asciiPlatform (trim oversizedDataUrl) = Some ?pl3
        \<and> bytes ?pl3 > MAX_DATA_URL_BYTES \<and> stringOrMissing None
        \<and> coerceParts asciiPlatform [textPartJson ?t] = Inr [TextPart ?t]"
    unfolding oversized_trim p3
    by (simp add: MAX_DATA_URL_BYTES_def stringOrMissing_def oversizedDataUrl_def js_def
        coercePart_text sanitizeTextSegment_def strippedControl_def MAX_TEXT_CHARS_def)
  have d: "detailOf asciiPlatform ?d1 = js ''auto''" "detailOf asciiPlatform ?d2 = js ''low''"
    by (simp_all add: detailOf_def DETAIL_LEVELS_def asciiPlatform_def asciiLower_def js_def)
  from C7_multipart_coercion [where t="?t" and ?u1.0=tinyPng and P=asciiPlatform and pl="?pl"
        and ?u2.0="?u2" and ?d1.0="?d1" and ?d2.0="?d2" and r=User and ?u3.0=oversizedDataUrl
        and ?pl3.0="?pl3" and ?d3.0=None and pre="[textPartJson ?t]" and accepted="[TextPart ?t]"
        and post="[]"]
  show ?thesis
    using first second unfolding clean t1 t2 oversized_trim d by simp
qed

text \<open>The claim as stated fails on a text part with a control character: the message
  is accepted, and the text that comes back is not the text that was sent.\<close>

theorem C7_sanitized_text_counterexample:
  "coerceMessage asciiPlatform
     (messageJson User
        [textPartJson (js ''ho'' @ [1] @ js ''la''),
         imagePartJson tinyPng (Some (JStr (js ''auto''))),
         imagePartJson (js ''https://cdn.example.com/uno.jpg'') (Some (JStr (js ''low'')))])
     = Inr \<lparr>role = User,
            content = Parts [TextPart (js ''hola''),
                             ImagePart tinyPng (js ''auto''),
                             ImagePart (js ''https://cdn.example.com/uno.jpg'') (js ''low'')]\<rparr>
   \<and> js ''ho'' @ [1] @ js ''la'' \<noteq> js ''hola''"
  by (simp add: coerceMessage_parts coercePart_text coercePart_image normalizeDetail_def
      sanitizeTextSegment_def strippedControl_def MAX_TEXT_CHARS_def DETAIL_LEVELS_def
      tinyPng_def dataUrl_eval platform_eval js_def)

section \<open>Properties of the proxy endpoint\<close>

lemma guardSegments_None:
  "guardSegments P segs = None \<longleftrightarrow> list_all (\<lambda>seg. guardOrThrow P seg = Inr ()) segs"
  by (induction segs) (auto split: sum.splits)

lemma afterAdmission_call:
  assumes "snd (afterAdmission P E hs parsed) \<noteq> None"
  shows "\<exists>b segs. parsed = Inr b \<and> newestUserSegments P b = Some segs
           \<and> guardSegments P segs = None"
  using assms
  by (auto simp: afterAdmission_def newestUserSegments_def badRequest_def Let_def
      split: sum.splits option.splits json.splits if_splits)


lemma afterAdmission_violation:
  assumes "newestUserSegments P b = Some segs" "guardSegments P segs \<noteq> None"
  shows "snd (afterAdmission P E hs (Inr b)) = None
       \<and> status (fst (afterAdmission P E hs (Inr b))) = 400"
  using assms
  by (auto simp: afterAdmission_def newestUserSegments_def badRequest_def jsonError_def Let_def
      split: sum.splits option.splits json.splits if_splits)

lemma proxyCatch_headers: "headers (proxyCatch e hs) = hs"
  by (simp add: proxyCatch_def jsonError_def split: js_error.splits)

lemma relay_headers:
  "headers (relay outcome hs) = hs
   \<or> headers (relay outcome hs) =
       [(''Content-Type'', HText ''text/event-stream''), (''Cache-Control'', HText ''no-cache''),
        (''Connection'', HText ''keep-alive''), (''X-Robots-Tag'', HText ''noindex'')] @ hs"
  by (simp add: relay_def jsonError_def proxyCatch_headers
      split: fetchOutcome.splits option.splits)

lemma afterAdmission_headers:
  "headers (fst (afterAdmission P E hs parsed)) = hs
   \<or> headers (fst (afterAdmission P E hs parsed)) =
       [(''Content-Type'', HText ''text/event-stream''), (''Cache-Control'', HText ''no-cache''),
        (''Connection'', HText ''keep-alive''), (''X-Robots-Tag'', HText ''noindex'')] @ hs"
  using relay_headers
  by (simp add: afterAdmission_def badRequest_def jsonError_def proxyCatch_headers Let_def
      split: sum.splits option.splits json.splits)

lemma rateLimit_lookup:
  assumes "hs' = rateLimitHeaders l r s"
    and "hs = hs' \<or> hs =
       [(''Content-Type'', HText ''text/event-stream''), (''Cache-Control'', HText ''no-cache''),
        (''Connection'', HText ''keep-alive''), (''X-Robots-Tag'', HText ''noindex'')] @ hs'"
  shows "map_of hs ''RateLimit-Limit'' = Some (HNum l)
       \<and> map_of hs ''RateLimit-Remaining'' = Some (HNum (max 0 r))
       \<and> map_of hs ''RateLimit-Reset'' = Some (HNum s)"
  using assms by (auto simp: rateLimitHeaders_def)

lemma POST_admitted:
  assumes "passesChecks req"
    and "applyRateLimit (processEnv E) (dateNow E) st (getClientId req) = (Allowed l r s, st')"
  shows "POST P E st req =
     \<lparr>reply = fst (afterAdmission P E (rateLimitHeaders l r s) (body req)),
      rateStateAfter = st',
      upstreamCall = snd (afterAdmission P E (rateLimitHeaders l r s) (body req))\<rparr>"
  using assms by (simp add: POST_def passesChecks_def Let_def split_beta)

lemma POST_rejected:
  assumes "passesChecks req"
    and "applyRateLimit (processEnv E) (dateNow E) st (getClientId req) = (Rejected l r s, st')"
  shows "status (reply (POST P E st req)) = 429 \<and> rateStateAfter (POST P E st req) = st'
       \<and> upstreamCall (POST P E st req) = None"
  using assms by (simp add: POST_def passesChecks_def Let_def jsonError_def)

lemma POST_unchecked:
  assumes "\<not> passesChecks req"
  shows "upstreamCall (POST P E st req) = None \<and> rateStateAfter (POST P E st req) = st"
  using assms by (auto simp: POST_def passesChecks_def)

lemma windowMsOf_pos: "0 < windowMsOf c"
  by (simp add: windowMsOf_def split: option.splits)

lemma applyRateLimit_count:
  assumes "applyRateLimit c t st k = (outcome, st')"
  shows "(\<forall>l r s. outcome = Allowed l r s \<longrightarrow> liveCount t st' k = liveCount t st k + 1)
       \<and> (\<forall>l r s. outcome = Rejected l r s \<longrightarrow> liveCount t st' k = liveCount t st k)"
  using assms windowMsOf_pos [of c]
  by (auto simp: applyRateLimit_def liveCount_def cleanupRateState_def Let_def
      split: option.splits if_splits)

text \<open>The guard stage of \<open>POST\<close>, in terms of the segments its loop runs over.\<close>

lemma POST_guard_stage:
  "(upstreamCall (POST P E st req) \<noteq> None \<longrightarrow>
      (\<exists>b segs. body req = Inr b \<and> newestUserSegments P b = Some segs
         \<and> list_all (\<lambda>seg. guardOrThrow P seg = Inr ()) segs))
   \<and> (body req = Inr b \<and> newestUserSegments P b = Some segs
        \<and> list_ex (\<lambda>seg. guardOrThrow P seg \<noteq> Inr ()) segs \<longrightarrow>
        upstreamCall (POST P E st req) = None
        \<and> (passesChecks req \<and> admitted E st req \<longrightarrow> status (reply (POST P E st req)) = 400))"
proof (intro conjI impI)
  assume call: "upstreamCall (POST P E st req) \<noteq> None"
  have checks: "passesChecks req"
  proof (rule ccontr)
    assume "\<not> passesChecks req"
    from POST_unchecked [OF this, of P E st] call show False by simp
  qed
  obtain outcome st' where rl:
    "applyRateLimit (processEnv E) (dateNow E) st (getClientId req) = (outcome, st')"
    by (cases "applyRateLimit (processEnv E) (dateNow E) st (getClientId req)") auto
  show "\<exists>b segs. body req = Inr b \<and> newestUserSegments P b = Some segs
         \<and> list_all (\<lambda>seg. guardOrThrow P seg = Inr ()) segs"
  proof (cases outcome)
    case (Allowed l r s)
    with call POST_admitted [OF checks, of E st l r s st' P] rl
    have "snd (afterAdmission P E (rateLimitHeaders l r s) (body req)) \<noteq> None" by simp
    from afterAdmission_call [OF this] show ?thesis
      by (simp add: guardSegments_None)
  next
    case (Rejected l r s)
    with call POST_rejected [OF checks, of E st l r s st' P] rl show ?thesis by simp
  qed
next
  assume h: "body req = Inr b \<and> newestUserSegments P b = Some segs
        \<and> list_ex (\<lambda>seg. guardOrThrow P seg \<noteq> Inr ()) segs"
  then have bad: "guardSegments P segs \<noteq> None"
    by (auto simp: guardSegments_None list_all_iff list_ex_iff)
  show "upstreamCall (POST P E st req) = None"
  proof (rule ccontr)
    assume call: "upstreamCall (POST P E st req) \<noteq> None"
    have checks: "passesChecks req"
    proof (rule ccontr)
      assume "\<not> passesChecks req"
      from POST_unchecked [OF this, of P E st] call show False by simp
    qed
    obtain outcome st' where rl:
      "applyRateLimit (processEnv E) (dateNow E) st (getClientId req) = (outcome, st')"
      by (cases "applyRateLimit (processEnv E) (dateNow E) st (getClientId req)") auto
    show False
    proof (cases outcome)
      case (Allowed l r s)
      with POST_admitted [OF checks, of E st l r s st' P] rl
        afterAdmission_violation [of P b segs E "rateLimitHeaders l r s"] h bad
        \<open>upstreamCall (POST P E st req) \<noteq> None\<close>
      show False by simp
    next
      case (Rejected l r s)
      with POST_rejected [OF checks, of E st l r s st' P] rl
        \<open>upstreamCall (POST P E st req) \<noteq> None\<close>
      show False by simp
    qed
  qed
next
  assume h: "body req = Inr b \<and> newestUserSegments P b = Some segs
        \<and> list_ex (\<lambda>seg. guardOrThrow P seg \<noteq> Inr ()) segs"
    and adm: "passesChecks req \<and> admitted E st req"
  from h have bad: "guardSegments P segs \<noteq> None"
    by (auto simp: guardSegments_None list_all_iff list_ex_iff)
  obtain outcome st' where rl:
    "applyRateLimit (processEnv E) (dateNow E) st (getClientId req) = (outcome, st')"
    by (cases "applyRateLimit (processEnv E) (dateNow E) st (getClientId req)") auto
  with adm obtain l r s where "outcome = Allowed l r s"
    by (cases outcome) (auto simp: admitted_def)
  with POST_admitted [of req E st l r s st' P] rl adm
    afterAdmission_violation [of P b segs E "rateLimitHeaders l r s"] h bad
  show "status (reply (POST P E st req)) = 400" by simp
qed

text \<open>
  C10, as the code has it. For a request that passes the origin and content-type
  checks, the rate-limit map after \<open>POST\<close> is the one \<open>applyRateLimit\<close> returns, whatever
  the body is (the limiter runs before the body is read). When the limiter admits the
  request, the client's live count is one more than before, and the response, whatever
  its status (200, 400, 500, 502 or the provider's), carries the three \<open>RateLimit-*\<close>
  headers computed at admission. When the limiter rejects the request, the response
  is 429, no upstream call is made and the client's count is unchanged: a rejected
  request consumes nothing.
\<close>

theorem C10_admission_charged:
  assumes "passesChecks req"
    and "applyRateLimit (processEnv E) (dateNow E) st (getClientId req) = (outcome, st')"
  shows "(\<forall>b'. rateStateAfter (POST P E st (req\<lparr>body := b'\<rparr>)) = st')
     \<and> (\<forall>l r s. outcome = Allowed l r s \<longrightarrow>
           liveCount (dateNow E) (rateStateAfter (POST P E st req)) (getClientId req)
             = liveCount (dateNow E) st (getClientId req) + 1
           \<and> map_of (headers (reply (POST P E st req))) ''RateLimit-Limit'' = Some (HNum l)
           \<and> map_of (headers (reply (POST P E st req))) ''RateLimit-Remaining''
               = Some (HNum (max 0 r))
           \<and> map_of (headers (reply (POST P E st req))) ''RateLimit-Reset'' = Some (HNum s))
     \<and> (\<forall>l r s. outcome = Rejected l r s \<longrightarrow>
           status (reply (POST P E st req)) = 429
           \<and> upstreamCall (POST P E st req) = None
           \<and> liveCount (dateNow E) (rateStateAfter (POST P E st req)) (getClientId req)
               = liveCount (dateNow E) st (getClientId req))"
proof (intro conjI allI impI)
  fix b'
  have checks: "passesChecks (req\<lparr>body := b'\<rparr>)"
    using assms(1) by (auto simp: passesChecks_def foreignOrigin_def notJson_def split: option.splits)
  have rl: "applyRateLimit (processEnv E) (dateNow E) st (getClientId (req\<lparr>body := b'\<rparr>))
      = (outcome, st')"
    using assms(2) by (simp add: getClientId_def)
  show "rateStateAfter (POST P E st (req\<lparr>body := b'\<rparr>)) = st'"
  proof (cases outcome)
    case (Allowed l r s)
    with POST_admitted [OF checks, of E st l r s st' P] rl show ?thesis by simp
  next
    case (Rejected l r s)
    with POST_rejected [OF checks, of E st l r s st' P] rl show ?thesis by simp
  qed
next
  fix l r s
  assume a: "outcome = Allowed l r s"
  have post: "POST P E st req =
     \<lparr>reply = fst (afterAdmission P E (rateLimitHeaders l r s) (body req)),
      rateStateAfter = st',
      upstreamCall = snd (afterAdmission P E (rateLimitHeaders l r s) (body req))\<rparr>"
    using POST_admitted [OF assms(1), of E st l r s st' P] assms(2) a by simp
  have hs: "map_of (headers (reply (POST P E st req))) ''RateLimit-Limit'' = Some (HNum l)
       \<and> map_of (headers (reply (POST P E st req))) ''RateLimit-Remaining'' = Some (HNum (max 0 r))
       \<and> map_of (headers (reply (POST P E st req))) ''RateLimit-Reset'' = Some (HNum s)"
    unfolding post
    using afterAdmission_headers [of P E "rateLimitHeaders l r s" "body req"]
    by (intro rateLimit_lookup [OF refl]) simp
  show "liveCount (dateNow E) (rateStateAfter (POST P E st req)) (getClientId req)
             = liveCount (dateNow E) st (getClientId req) + 1"
    using applyRateLimit_count [OF assms(2)] a by (simp add: post)
  show "map_of (headers (reply (POST P E st req))) ''RateLimit-Limit'' = Some (HNum l)"
    using hs by simp
  show "map_of (headers (reply (POST P E st req))) ''RateLimit-Remaining'' = Some (HNum (max 0 r))"
    using hs by simp
  show "map_of (headers (reply (POST P E st req))) ''RateLimit-Reset'' = Some (HNum s)"
    using hs by simp
next
  fix l r s
  assume a: "outcome = Rejected l r s"
  have rej: "status (reply (POST P E st req)) = 429 \<and> rateStateAfter (POST P E st req) = st'
       \<and> upstreamCall (POST P E st req) = None"
    using POST_rejected [OF assms(1), of E st l r s st' P] assms(2) a by simp
  show "status (reply (POST P E st req)) = 429" using rej by simp
  show "upstreamCall (POST P E st req) = None" using rej by simp
  show "liveCount (dateNow E) (rateStateAfter (POST P E st req)) (getClientId req)
               = liveCount (dateNow E) st (getClientId req)"
    using applyRateLimit_count [OF assms(2)] a rej by simp
qed

lemmas request_eval = buildRequest_def requestBody_def holaMessage_def textMessageJson_def
  roleName_def passesChecks_def foreignOrigin_def notJson_def getClientId_def js_def

lemma test_client: "getClientId (buildRequest b) = js ''unknown''"
  by (simp add: getClientId_def buildRequest_def)

lemma test_checks: "passesChecks (buildRequest b)"
  by (simp add: request_eval)

lemma test_first_call:
  "applyRateLimit (processEnv testEnv) (dateNow testEnv) Map.empty (js ''unknown'')
     = (Allowed 10 9 60,
        Map.empty(js ''unknown'' \<mapsto> \<lparr>count = 1, resetAt = newYear2024 + 60000\<rparr>))"
proof -
  have "cleanupRateState newYear2024 Map.empty = Map.empty"
    by (simp add: cleanupRateState_def)
  then show ?thesis
    using applyRateLimit_fresh [where cfg=defaultConfig and st=Map.empty and c="js ''unknown''"
        and now=newYear2024]
    by (simp add: testEnv_def limitOf_def windowMsOf_def defaultConfig_def)
qed

lemma test_eleventh_call:
  "applyRateLimit (processEnv testEnv) (dateNow testEnv) exhaustedState (js ''unknown'')
     = (Rejected 10 60 60, cleanupRateState newYear2024 exhaustedState)
   \<and> cleanupRateState newYear2024 exhaustedState (js ''unknown'')
       = exhaustedState (js ''unknown'')"
  using applyRateLimit_reject [where cfg=defaultConfig and st=exhaustedState
      and c="js ''unknown''" and now=newYear2024 and k=10 and r="newYear2024 + 60000"]
  by (simp add: testEnv_def limitOf_def windowMsOf_def defaultConfig_def exhaustedState_def
      ceilSeconds_window)

lemma coerce_text_message:
  "sanitizeTextSegment t = t \<Longrightarrow> t \<noteq> [] \<Longrightarrow> length t \<le> MAX_TEXT_CHARS \<Longrightarrow>
     coerceMessage P (textMessageJson r t) = Inr \<lparr>role = r, content = Text t\<rparr>"
  by (cases r) (simp_all add: coerceMessage_def textMessageJson_def roleName_def roleOf_def js_def)

lemma sanitize_loli: "sanitizeTextSegment (js ''loli'') = js ''loli''"
  by (simp add: sanitizeTextSegment_def strippedControl_def js_def)

lemma sanitize_hola: "sanitizeTextSegment (js ''hola'') = js ''hola''"
  by (simp add: sanitizeTextSegment_def strippedControl_def js_def)

text \<open>A first request with a model that is not allowed: answered with 400, with
  \<open>RateLimit-Remaining: 9\<close>, and the client's count is 1.\<close>

theorem C10_admission_charged_witness:
  "status (reply (POST asciiPlatform testEnv Map.empty
      (buildRequest (requestBody [(js ''model'', JStr (js ''gpt-4''))] [holaMessage])))) = 400
   \<and> map_of (headers (reply (POST asciiPlatform testEnv Map.empty
        (buildRequest (requestBody [(js ''model'', JStr (js ''gpt-4''))] [holaMessage])))))
        ''RateLimit-Remaining'' = Some (HNum 9)
   \<and> liveCount newYear2024 (rateStateAfter (POST asciiPlatform testEnv Map.empty
        (buildRequest (requestBody [(js ''model'', JStr (js ''gpt-4''))] [holaMessage]))))
        (js ''unknown'') = 1"
proof -
  let ?req = "buildRequest (requestBody [(js ''model'', JStr (js ''gpt-4''))] [holaMessage])"
  let ?st' = "Map.empty(js ''unknown'' \<mapsto> \<lparr>count = 1, resetAt = newYear2024 + 60000\<rparr>)"
  have rl: "applyRateLimit (processEnv testEnv) (dateNow testEnv) Map.empty (getClientId ?req)
      = (Allowed 10 9 60, ?st')"
    by (simp add: test_client test_first_call)
  have bad: "status (fst (afterAdmission asciiPlatform testEnv (rateLimitHeaders 10 9 60)
      (body ?req))) = 400"
    by (simp add: afterAdmission_def buildRequest_def requestBody_def badRequest_def
        jsonError_def ALLOWED_MODELS_def js_def)
  have st: "status (reply (POST asciiPlatform testEnv Map.empty ?req)) = 400"
    using POST_admitted [OF test_checks rl, of asciiPlatform] bad by simp
  have zero: "liveCount newYear2024 Map.empty (js ''unknown'') = 0"
    by (simp add: liveCount_def cleanupRateState_def)
  have now: "dateNow testEnv = newYear2024"
    by (simp add: testEnv_def)
  show ?thesis
    using C10_admission_charged [OF test_checks rl, of asciiPlatform] st zero
    by (simp add: test_client now)
qed

text \<open>The claim as stated fails on the eleventh request of a window: it passes the
  origin and content-type checks, is answered with 429, and the stored count stays
  at 10.\<close>

theorem C10_rejected_request_counterexample:
  "passesChecks (buildRequest (requestBody [] [holaMessage]))
   \<and> status (reply (POST asciiPlatform testEnv exhaustedState
        (buildRequest (requestBody [] [holaMessage])))) = 429
   \<and> liveCount newYear2024 exhaustedState (js ''unknown'') = 10
   \<and> liveCount newYear2024 (rateStateAfter (POST asciiPlatform testEnv exhaustedState
        (buildRequest (requestBody [] [holaMessage])))) (js ''unknown'') = 10"
proof -
  let ?req = "buildRequest (requestBody [] [holaMessage])"
  let ?st' = "cleanupRateState newYear2024 exhaustedState"
  have rl: "applyRateLimit (processEnv testEnv) (dateNow testEnv) exhaustedState (getClientId ?req)
      = (Rejected 10 60 60, ?st')"
    using test_eleventh_call by (simp add: test_client)
  have before: "liveCount newYear2024 exhaustedState (js ''unknown'') = 10"
    by (simp add: liveCount_def cleanupRateState_def exhaustedState_def)
  have after: "liveCount newYear2024 ?st' (js ''unknown'') = 10"
    by (simp add: liveCount_def cleanupRateState_def exhaustedState_def)
  show ?thesis
    using POST_rejected [OF test_checks rl, of asciiPlatform] test_checks [of "requestBody [] [holaMessage]"]
      before after
    by simp
qed

lemma coerceAll_text_replicate:
  "sanitizeTextSegment t = t \<Longrightarrow> t \<noteq> [] \<Longrightarrow> length t \<le> MAX_TEXT_CHARS \<Longrightarrow>
     coerceAll P (replicate n (textMessageJson r t))
       = Inr (replicate n \<lparr>role = r, content = Text t\<rparr>)"
  by (induction n) (simp_all add: coerce_text_message)

lemma find_replicate: "Q u \<Longrightarrow> find Q (replicate k u @ u # xs) = Some u"
  by (induction k) simp_all

lemma lastUser_replicate:
  "role u = User \<Longrightarrow> 0 < n \<Longrightarrow> lastUserMessage (x # replicate n u) = Some u"
  by (cases n) (simp_all add: lastUserMessage_def find_replicate)

text \<open>\<open>slice(-51)\<close> keeps the system message in front of up to 50 messages, and drops
  it in front of 51.\<close>

lemma finalMsgs_keeps_system:
  "length safeMsgs \<le> 50 \<Longrightarrow>
     finalMsgs sp safeMsgs = \<lparr>role = System, content = Text sp\<rparr> # safeMsgs"
  by (simp add: finalMsgs_def sliceLast_def)

lemma finalMsgs_drops_system:
  "length safeMsgs = 51 \<Longrightarrow> finalMsgs sp safeMsgs = safeMsgs"
  by (simp add: finalMsgs_def sliceLast_def)

lemma guard_hola: "guardSegments asciiPlatform [js ''hola''] = None"
  by (simp add: guard_eval)

lemma full_conversation_call:
  "map_option messages
     (snd (afterAdmission asciiPlatform testEnv hs
        (Inr (requestBody [(js ''characterPrompt'', JStr (js ''voz heroica''))]
                (replicate 50 holaMessage)))))
   = Some (\<lparr>role = System, content = Text (js ''voz heroica'')\<rparr>
           # replicate 50 \<lparr>role = User, content = Text (js ''hola'')\<rparr>)"
proof -
  let ?b = "requestBody [(js ''characterPrompt'', JStr (js ''voz heroica''))]
                (replicate 50 holaMessage)"
  let ?u = "\<lparr>role = User, content = Text (js ''hola'')\<rparr>"
  let ?c = "\<lparr>role = System, content = Text (js ''voz heroica'')\<rparr>"
  have model: "getProp ?b (js ''model'') = Some (JStr (js ''grok-4-fast-reasoning''))"
    and sp: "getProp ?b (js ''systemPrompt'') = Some (JStr (js ''hola''))"
    and cp: "getProp ?b (js ''characterPrompt'') = Some (JStr (js ''voz heroica''))"
    and ms: "getProp ?b (js ''messages'') = Some (JArr (replicate 50 holaMessage))"
    by (simp_all add: requestBody_def js_def)
  have allowed: "js ''grok-4-fast-reasoning'' \<noteq> [] \<and> js ''grok-4-fast-reasoning'' \<in> set ALLOWED_MODELS"
    by (simp add: ALLOWED_MODELS_def js_def)
  have spv: "sanitizePrompt (js ''hola'') = js ''hola''" "length (js ''hola'') = 4"
    by (simp_all add: sanitizePrompt_def trim_def isWhite_numeral whiteSpace_def js_def)
  have cpv: "characterPromptValue (Some (JStr (js ''voz heroica''))) = js ''voz heroica''"
    by (simp add: characterPromptValue_def sanitizePrompt_def trim_def isWhite_numeral
        whiteSpace_def MAX_PROMPT_CHARS_def js_def)
  have coerced: "coerceAll asciiPlatform (replicate 50 holaMessage) = Inr (replicate 50 ?u)"
    unfolding holaMessage_def
    by (rule coerceAll_text_replicate)
      (simp_all add: sanitizeTextSegment_def strippedControl_def MAX_TEXT_CHARS_def js_def)
  have safe: "withCharacterPrompt (js ''voz heroica'') (replicate 50 ?u) = ?c # replicate 50 ?u"
    by (simp add: withCharacterPrompt_def js_def)
  have last: "lastUserMessage (?c # replicate 50 ?u) = Some ?u"
    by (rule lastUser_replicate) simp_all
  have segs: "extractTextSegments (content ?u) = [js ''hola'']"
    by (simp add: extractTextSegments_def)
  have final: "finalMsgs (js ''hola'') (?c # replicate 50 ?u) = ?c # replicate 50 ?u"
    by (rule finalMsgs_drops_system) simp
  have key: "XAI_API_KEY (processEnv testEnv) = Some (js ''test-key'')" "js ''test-key'' \<noteq> []"
    by (simp_all add: testEnv_def defaultConfig_def js_def)
  have nonnull: "?b \<noteq> JNull"
    by (simp add: requestBody_def)
  show ?thesis
    unfolding afterAdmission_def
    by (simp only: sum.case nonnull if_False model sp cp ms option.case json.case allowed
        simp_thms spv cpv coerced safe last segs guard_hola final key Let_def length_replicate
        MAX_MESSAGES_def MAX_PROMPT_CHARS_def)
      simp
qed


text \<open>
  C1 on the code. With a character prompt and 50 messages, \<open>[systemMsg, ...safeMsgs]\<close>
  has 52 entries and \<open>slice(-51)\<close> drops the first: the payload sent upstream starts
  with the character-prompt message and the system-prompt message is not in it.
\<close>

theorem C1_system_prompt_dropped:
  "map_option messages (upstreamCall (POST asciiPlatform testEnv Map.empty fullConversation))
     = Some (\<lparr>role = System, content = Text (js ''voz heroica'')\<rparr>
             # replicate 50 \<lparr>role = User, content = Text (js ''hola'')\<rparr>)
   \<and> \<lparr>role = System, content = Text (js ''voz heroica'')\<rparr>
       \<noteq> \<lparr>role = System, content = Text (js ''hola'')\<rparr>"
proof -
  let ?b = "requestBody [(js ''characterPrompt'', JStr (js ''voz heroica''))]
                (replicate 50 holaMessage)"
  have rl: "applyRateLimit (processEnv testEnv) (dateNow testEnv) Map.empty
      (getClientId (buildRequest ?b))
      = (Allowed 10 9 60,
         Map.empty(js ''unknown'' \<mapsto> \<lparr>count = 1, resetAt = newYear2024 + 60000\<rparr>))"
    by (simp add: test_client test_first_call)
  have body: "body (buildRequest ?b) = Inr ?b"
    by (simp add: buildRequest_def)
  have "map_option messages (upstreamCall (POST asciiPlatform testEnv Map.empty (buildRequest ?b)))
     = Some (\<lparr>role = System, content = Text (js ''voz heroica'')\<rparr>
             # replicate 50 \<lparr>role = User, content = Text (js ''hola'')\<rparr>)"
    using POST_admitted [OF test_checks rl, of asciiPlatform] full_conversation_call
    by (simp add: body)
  moreover have "js ''voz heroica'' \<noteq> js ''hola''"
    by (simp add: js_def)
  ultimately show ?thesis
    by (simp add: fullConversation_def)
qed

section \<open>The guard runs on the newest user message before the upstream call\<close>

text \<open>What the guard loop runs over, in the specification's terms. The coerced list is
  the list of the results of \<open>coerceMessage\<close>; the segments that \<open>extractTextSegments\<close>
  returns are exactly the text segments of the message; \<open>lastUserMessage\<close> returns the
  last message of the list whose role is \<open>user\<close>, and the character prompt, a system
  message, does not change it.\<close>

lemma coerceAll_map:
  "coerceAll P raw = Inr coerced \<longleftrightarrow> map (coerceMessage P) raw = map Inr coerced"
proof (induction raw arbitrary: coerced)
  case Nil
  then show ?case by auto
next
  case (Cons r raw)
  show ?case
  proof (cases "coerceMessage P r")
    case (Inl e)
    then show ?thesis by (auto simp: Cons_eq_map_conv)
  next
    case (Inr c)
    show ?thesis
    proof (cases "coerceAll P raw")
      case (Inl e)
      then have "\<And>cs. map (coerceMessage P) raw \<noteq> map Inr cs"
        using Cons.IH by auto
      with Inl Inr show ?thesis by (auto simp: Cons_eq_map_conv)
    next
      case cs: (Inr cs)
      then have "map (coerceMessage P) raw = map Inr cs"
        using Cons.IH by simp
      with cs Inr show ?thesis
        by (auto simp: Cons_eq_map_conv inj_map_eq_map [OF inj_Inr])
    qed
  qed
qed

lemma partTexts_set: "set (partTexts ps) = {t. TextPart t \<in> set ps}"
  by (induction ps rule: partTexts.induct) auto

lemma textSegmentOf_iff:
  "seg \<in> set (extractTextSegments (content m)) \<longleftrightarrow> textSegmentOf seg m"
  by (simp add: extractTextSegments_def textSegmentOf_def partTexts_set
      split: MessageContent.splits)

lemma lastUserMessage_snoc:
  "lastUserMessage (msgs @ [x]) = (if role x = User then Some x else lastUserMessage msgs)"
  by (simp add: lastUserMessage_def)

lemma lastUserMessage_newest:
  assumes "role m = User" "list_all (\<lambda>x. role x \<noteq> User) post"
  shows "lastUserMessage (pre @ m # post) = Some m"
  using assms(2)
proof (induction post rule: rev_induct)
  case Nil
  show ?case using assms(1) lastUserMessage_snoc [of pre m] by simp
next
  case (snoc y post)
  then have "lastUserMessage ((pre @ m # post) @ [y]) = Some m"
    by (simp only: lastUserMessage_snoc) simp
  then show ?case by simp
qed

lemma lastUserMessage_is_newest:
  "lastUserMessage msgs = Some m \<Longrightarrow>
     \<exists>pre post. msgs = pre @ m # post \<and> role m = User \<and> list_all (\<lambda>x. role x \<noteq> User) post"
proof (induction msgs rule: rev_induct)
  case Nil
  then show ?case by (simp add: lastUserMessage_def)
next
  case (snoc x msgs)
  show ?case
  proof (cases "role x = User")
    case True
    with snoc.prems have "m = x" by (simp add: lastUserMessage_snoc)
    with True have "msgs @ [x] = msgs @ m # [] \<and> role m = User
        \<and> list_all (\<lambda>x. role x \<noteq> User) []" by simp
    then show ?thesis by blast
  next
    case False
    with snoc.prems have "lastUserMessage msgs = Some m" by (simp add: lastUserMessage_snoc)
    from snoc.IH [OF this] obtain pre post where
      "msgs = pre @ m # post" "role m = User" "list_all (\<lambda>x. role x \<noteq> User) post" by blast
    with False have "msgs @ [x] = pre @ m # (post @ [x]) \<and> role m = User
        \<and> list_all (\<lambda>x. role x \<noteq> User) (post @ [x])" by simp
    then show ?thesis by blast
  qed
qed

lemma lastUser_withCharacterPrompt:
  "lastUserMessage (withCharacterPrompt cpv msgs) = lastUserMessage msgs"
proof (induction msgs rule: rev_induct)
  case Nil
  then show ?case by (simp add: withCharacterPrompt_def lastUserMessage_def)
next
  case (snoc x msgs)
  have "withCharacterPrompt cpv (msgs @ [x]) = withCharacterPrompt cpv msgs @ [x]"
    by (simp add: withCharacterPrompt_def)
  with snoc show ?case by (simp add: lastUserMessage_snoc)
qed

lemma newestUserSegments_newest:
  assumes "getProp b (js ''messages'') = Some (JArr raw)"
    and "map (coerceMessage P) raw = map Inr (pre @ m # post)"
    and "role m = User" "list_all (\<lambda>x. role x \<noteq> User) post"
  shows "newestUserSegments P b = Some (extractTextSegments (content m))"
proof -
  have "coerceAll P raw = Inr (pre @ m # post)"
    using assms(2) by (simp add: coerceAll_map)
  moreover have "lastUserMessage (pre @ m # post) = Some m"
    using assms(3,4) by (rule lastUserMessage_newest)
  ultimately show ?thesis
    using assms(1) by (simp add: newestUserSegments_def lastUser_withCharacterPrompt)
qed

lemma newestUserSegments_is_newest:
  assumes "newestUserSegments P b = Some segs"
  shows "\<exists>raw pre m post. getProp b (js ''messages'') = Some (JArr raw)
      \<and> map (coerceMessage P) raw = map Inr (pre @ m # post)
      \<and> role m = User \<and> list_all (\<lambda>x. role x \<noteq> User) post
      \<and> segs = extractTextSegments (content m)"
proof -
  from assms obtain raw coerced m where
    raw: "getProp b (js ''messages'') = Some (JArr raw)"
    and co: "coerceAll P raw = Inr coerced"
    and lu: "lastUserMessage coerced = Some m"
    and segs: "segs = extractTextSegments (content m)"
    by (auto simp: newestUserSegments_def lastUser_withCharacterPrompt
        split: option.splits json.splits sum.splits)
  from lastUserMessage_is_newest [OF lu] obtain pre post where
    "coerced = pre @ m # post" "role m = User" "list_all (\<lambda>x. role x \<noteq> User) post" by blast
  with raw co segs show ?thesis
    by (auto simp: coerceAll_map)
qed

text \<open>The status of the response through the gates before the body is read.\<close>

lemma POST_early_status:
  "status (reply (POST P E st req)) =
     (if foreignOrigin req then 403 else if notJson req then 415
      else if admitted E st req
        then status (fst (afterAdmission P E
               (case fst (applyRateLimit (processEnv E) (dateNow E) st (getClientId req)) of
                  Allowed l r s \<Rightarrow> rateLimitHeaders l r s
                | Rejected l r s \<Rightarrow> [])
               (body req)))
      else 429)"
  by (cases "applyRateLimit (processEnv E) (dateNow E) st (getClientId req)")
    (auto simp: POST_def admitted_def jsonError_def Let_def split_beta
      split: RateLimitResult.splits)

text \<open>
  C2, as the code has it. If \<open>POST\<close> calls the upstream provider, then the body parsed,
  every message was coerced, the coerced list has a last message \<open>m\<close> with the role
  \<open>user\<close>, and \<open>guardOrThrow\<close> returned normally on every text segment of \<open>m\<close> (its
  plain text, or the text of each of its text parts). And if \<open>guardOrThrow\<close> throws on
  some text segment of the newest user message of the coerced list, no upstream call
  is made; the response is the one of the first gate that stops the request: 403 for
  a foreign origin, 415 for a content type that is not JSON, 429 when the rate
  limiter rejects, and 400 otherwise.
\<close>

theorem C2_guard_before_upstream:
  "(upstreamCall (POST P E st req) \<noteq> None \<longrightarrow>
      (\<exists>b raw pre m post.
          body req = Inr b \<and> getProp b (js ''messages'') = Some (JArr raw)
          \<and> map (coerceMessage P) raw = map Inr (pre @ m # post)
          \<and> role m = User \<and> list_all (\<lambda>x. role x \<noteq> User) post
          \<and> (\<forall>seg. textSegmentOf seg m \<longrightarrow> guardOrThrow P seg = Inr ())))
   \<and> (body req = Inr b \<and> getProp b (js ''messages'') = Some (JArr raw)
        \<and> map (coerceMessage P) raw = map Inr (pre @ m # post)
        \<and> role m = User \<and> list_all (\<lambda>x. role x \<noteq> User) post
        \<and> textSegmentOf seg m \<and> guardOrThrow P seg \<noteq> Inr ()
      \<longrightarrow> upstreamCall (POST P E st req) = None
          \<and> status (reply (POST P E st req)) =
              (if foreignOrigin req then 403 else if notJson req then 415
               else if admitted E st req then 400 else 429))"
proof (intro conjI impI)
  assume "upstreamCall (POST P E st req) \<noteq> None"
  with POST_guard_stage [of P E st req] obtain b segs where
    b: "body req = Inr b" and ns: "newestUserSegments P b = Some segs"
    and ok: "list_all (\<lambda>seg. guardOrThrow P seg = Inr ()) segs"
    by blast
  from newestUserSegments_is_newest [OF ns] obtain raw pre m post where
    shape: "getProp b (js ''messages'') = Some (JArr raw)"
      "map (coerceMessage P) raw = map Inr (pre @ m # post)"
      "role m = User" "list_all (\<lambda>x. role x \<noteq> User) post"
    and segs: "segs = extractTextSegments (content m)"
    by blast
  have "\<forall>seg. textSegmentOf seg m \<longrightarrow> guardOrThrow P seg = Inr ()"
    using ok segs by (simp add: list_all_iff textSegmentOf_iff)
  with b shape show "\<exists>b raw pre m post.
          body req = Inr b \<and> getProp b (js ''messages'') = Some (JArr raw)
          \<and> map (coerceMessage P) raw = map Inr (pre @ m # post)
          \<and> role m = User \<and> list_all (\<lambda>x. role x \<noteq> User) post
          \<and> (\<forall>seg. textSegmentOf seg m \<longrightarrow> guardOrThrow P seg = Inr ())"
    by blast
next
  assume h: "body req = Inr b \<and> getProp b (js ''messages'') = Some (JArr raw)
        \<and> map (coerceMessage P) raw = map Inr (pre @ m # post)
        \<and> role m = User \<and> list_all (\<lambda>x. role x \<noteq> User) post
        \<and> textSegmentOf seg m \<and> guardOrThrow P seg \<noteq> Inr ()"
  then have ns: "newestUserSegments P b = Some (extractTextSegments (content m))"
    using newestUserSegments_newest [of b raw P pre m post] by blast
  have viol: "list_ex (\<lambda>s. guardOrThrow P s \<noteq> Inr ()) (extractTextSegments (content m))"
    using h by (auto simp: list_ex_iff textSegmentOf_iff)
  from POST_guard_stage [of P E st req b "extractTextSegments (content m)"] h ns viol
  have none: "upstreamCall (POST P E st req) = None"
    and bad: "passesChecks req \<and> admitted E st req \<longrightarrow> status (reply (POST P E st req)) = 400"
    by blast+
  show "upstreamCall (POST P E st req) = None" by (rule none)
  show "status (reply (POST P E st req)) =
              (if foreignOrigin req then 403 else if notJson req then 415
               else if admitted E st req then 400 else 429)"
  proof (cases "passesChecks req \<and> admitted E st req")
    case True
    with bad show ?thesis by (simp add: passesChecks_def)
  next
    case False
    then show ?thesis
      using POST_early_status [of P E st req] by (auto simp: passesChecks_def)
  qed
qed

lemma messages_of_requestBody: "getProp (requestBody [] msgs) (js ''messages'') = Some (JArr msgs)"
  by (simp add: requestBody_def js_def)

text \<open>A conversation of three messages whose newest user message is multipart and
  has the lexicon word \<open>loli\<close> in its second text part: admitted, answered with 400,
  and never sent upstream.\<close>

theorem C2_guard_before_upstream_witness:
  "upstreamCall (POST asciiPlatform testEnv Map.empty
      (buildRequest (requestBody [] mixedConversation))) = None
   \<and> status (reply (POST asciiPlatform testEnv Map.empty
      (buildRequest (requestBody [] mixedConversation)))) = 400"
proof -
  let ?b = "requestBody [] mixedConversation"
  let ?pre = "[\<lparr>role = User, content = Text (js ''hola'')\<rparr>,
               \<lparr>role = Assistant, content = Text (js ''hola'')\<rparr>]"
  let ?m = "\<lparr>role = User,
             content = Parts [TextPart (js ''hola''),
                              ImagePart (js ''https://cdn.example.com/uno.jpg'') (js ''auto''),
                              TextPart (js ''loli'')]\<rparr>"
  have coerced: "map (coerceMessage asciiPlatform) mixedConversation = map Inr (?pre @ ?m # [])"
    by (simp add: mixedConversation_def coerce_text_message coerceMessage_parts coercePart_text
        coercePart_image normalizeDetail_def sanitizeTextSegment_def strippedControl_def
        MAX_TEXT_CHARS_def platform_eval js_def)
  have seg: "textSegmentOf (js ''loli'') ?m"
    by (simp add: textSegmentOf_def)
  have viol: "guardOrThrow asciiPlatform (js ''loli'') \<noteq> Inr ()"
    by (simp add: guard_eval)
  have body: "body (buildRequest ?b) = Inr ?b"
    by (simp add: buildRequest_def)
  have last: "role ?m = User \<and> list_all (\<lambda>x. role x \<noteq> User) []"
    by simp
  have gates: "\<not> foreignOrigin (buildRequest ?b) \<and> \<not> notJson (buildRequest ?b)
      \<and> admitted testEnv Map.empty (buildRequest ?b)"
    using test_checks [of ?b]
    by (simp add: passesChecks_def admitted_def test_client test_first_call)
  show ?thesis
    using C2_guard_before_upstream [of asciiPlatform testEnv Map.empty "buildRequest ?b" ?b
        mixedConversation ?pre ?m "[]" "js ''loli''"]
      body messages_of_requestBody [of mixedConversation] coerced seg viol last gates
    by simp
qed

text \<open>The claim as stated fails on the status: the eleventh request of a window whose
  newest user message is the lexicon word is answered with 429, not 400 (and is not
  sent upstream).\<close>

theorem C2_rate_limited_violation_counterexample:
  "map (coerceMessage asciiPlatform) [textMessageJson User (js ''loli'')]
     = map Inr [\<lparr>role = User, content = Text (js ''loli'')\<rparr>]
   \<and> textSegmentOf (js ''loli'') \<lparr>role = User, content = Text (js ''loli'')\<rparr>
   \<and> guardOrThrow asciiPlatform (js ''loli'') \<noteq> Inr ()
   \<and> status (reply (POST asciiPlatform testEnv exhaustedState
        (buildRequest (requestBody [] [textMessageJson User (js ''loli'')])))) = 429"
proof -
  let ?req = "buildRequest (requestBody [] [textMessageJson User (js ''loli'')])"
  have coerced: "map (coerceMessage asciiPlatform) [textMessageJson User (js ''loli'')]
     = map Inr [\<lparr>role = User, content = Text (js ''loli'')\<rparr>]"
    by (simp add: coerce_text_message sanitizeTextSegment_def strippedControl_def
        MAX_TEXT_CHARS_def js_def)
  have seg: "textSegmentOf (js ''loli'') \<lparr>role = User, content = Text (js ''loli'')\<rparr>"
    by (simp add: textSegmentOf_def)
  have viol: "guardOrThrow asciiPlatform (js ''loli'') \<noteq> Inr ()"
    by (simp add: guard_eval)
  have rl: "applyRateLimit (processEnv testEnv) (dateNow testEnv) exhaustedState (getClientId ?req)
      = (Rejected 10 60 60, cleanupRateState newYear2024 exhaustedState)"
    using test_eleventh_call by (simp add: test_client)
  have "status (reply (POST asciiPlatform testEnv exhaustedState ?req)) = 429"
    using POST_rejected [OF test_checks rl, of asciiPlatform] by simp
  with coerced seg viol show ?thesis by simp
qed

end
